theory Spec2Isabelle
  imports Main "HOL-Library.Sublist"
begin

section \<open>Upload routes of the contract-testing backend\<close>

text \<open>
  A shallow embedding of \<^verbatim>\<open>upload_routes.py\<close>: the extension validator, the cleanup
  of old local artifacts, the two upload handlers and the two result handlers.

  Conventions of the model.
  \<^item> A Python \<^verbatim>\<open>str\<close> is a \<^typ>\<open>string\<close>; a \<^typ>\<open>char\<close> stands for a code point
    below 256. Case mapping and white space follow Python on these code points.
  \<^item> Paths follow \<^verbatim>\<open>posixpath\<close> and \<^verbatim>\<open>PurePosixPath\<close> (Python 3.8 to 3.13).
  \<^item> An exception is a value: every function that can raise returns a sum, with
    \<open>Inl\<close> carrying the exception.
  \<^item> The local file system, the state of the remote runner and the log of the calls
    that leave the process are fields of one record that every effectful function
    takes and returns.
\<close>

subsection \<open>Python strings\<close>

text \<open>\<^verbatim>\<open>str.lower\<close> on one code point below 256: A to Z, and the Latin-1 capitals
  (U+00C0 to U+00DE without the multiplication sign U+00D7).\<close>

definition lower_char :: "char \<Rightarrow> char" where
  "lower_char c =
     (let n = (of_char c :: nat)
      in if (65 \<le> n \<and> n \<le> 90) \<or> (192 \<le> n \<and> n \<le> 222 \<and> n \<noteq> 215)
         then char_of (n + 32) else c)"

definition str_lower :: "string \<Rightarrow> string" where
  "str_lower s = map lower_char s"

text \<open>\<^verbatim>\<open>str.isspace\<close> on one code point below 256: tab to carriage return, the four
  separators U+001C to U+001F, space, U+0085 and U+00A0.\<close>

definition isspace :: "char \<Rightarrow> bool" where
  "isspace c =
     (let n = (of_char c :: nat)
      in (9 \<le> n \<and> n \<le> 13) \<or> (28 \<le> n \<and> n \<le> 32) \<or> n = 133 \<or> n = 160)"

text \<open>\<^verbatim>\<open>str.strip()\<close>: white space is removed at both ends.\<close>

definition str_strip :: "string \<Rightarrow> string" where
  "str_strip s = rev (dropWhile isspace (rev (dropWhile isspace s)))"

text \<open>\<^verbatim>\<open>s.rfind(c)\<close> for a single character: the highest index of \<open>c\<close>, or \<open>-1\<close>.\<close>

definition str_rfind :: "string \<Rightarrow> char \<Rightarrow> int" where
  "str_rfind s c =
     (if c \<in> set s
      then int (length s) - 1 - int (length (takeWhile (\<lambda>x. x \<noteq> c) (rev s)))
      else - 1)"

text \<open>\<^verbatim>\<open>s.split(c)\<close> with an explicit separator: empty fields are kept, and the
  empty string gives one empty field.\<close>

fun str_split :: "char \<Rightarrow> string \<Rightarrow> string list" where
  "str_split c [] = [[]]"
| "str_split c (x # xs) =
     (if x = c then [] # str_split c xs
      else (x # hd (str_split c xs)) # tl (str_split c xs))"

subsection \<open>\<^verbatim>\<open>os.path\<close> and \<^verbatim>\<open>pathlib\<close>\<close>

text \<open>The loop of \<^verbatim>\<open>genericpath._splitext\<close> that skips the leading dots of the last
  component: it returns the split at the last dot as soon as it meets a character
  that is not a dot, and falls through otherwise.\<close>

function splitext_loop :: "string \<Rightarrow> nat \<Rightarrow> nat \<Rightarrow> (string \<times> string) option" where
  "splitext_loop p filenameIndex dotIndex =
     (if filenameIndex < dotIndex
      then (if p ! filenameIndex \<noteq> CHR ''.''
            then Some (take dotIndex p, drop dotIndex p)
            else splitext_loop p (Suc filenameIndex) dotIndex)
      else None)"
  by pat_completeness auto
termination
  by (relation "measure (\<lambda>(p, filenameIndex, dotIndex). dotIndex - filenameIndex)") auto

declare splitext_loop.simps [simp del]

text \<open>\<^verbatim>\<open>os.path.splitext(p)\<close>: the extension starts at the last dot of the last
  component, unless that component has only dots before it.\<close>

definition os_path_splitext :: "string \<Rightarrow> string \<times> string" where
  "os_path_splitext p =
     (let sepIndex = str_rfind p CHR ''/'';
          dotIndex = str_rfind p CHR ''.''
      in if dotIndex > sepIndex
         then (case splitext_loop p (nat (sepIndex + 1)) (nat dotIndex) of
                 Some r \<Rightarrow> r
               | None \<Rightarrow> (p, []))
         else (p, []))"

text \<open>\<^verbatim>\<open>os.path.join(a, b)\<close> for two arguments.\<close>

definition os_path_join :: "string \<Rightarrow> string \<Rightarrow> string" where
  "os_path_join a b =
     (if b \<noteq> [] \<and> hd b = CHR ''/'' then b
      else if a = [] \<or> last a = CHR ''/'' then a @ b
      else a @ ''/'' @ b)"

text \<open>\<^verbatim>\<open>os.path.split(p)\<close>: head and tail around the last slash; the slashes that end
  the head are removed unless it has nothing else.\<close>

definition os_path_split :: "string \<Rightarrow> string \<times> string" where
  "os_path_split p =
     (let i = nat (str_rfind p CHR ''/'' + 1);
          head = take i p;
          tail = drop i p
      in (if head \<noteq> [] \<and> head \<noteq> replicate (length head) CHR ''/''
          then rev (dropWhile (\<lambda>c. c = CHR ''/'') (rev head)) else head,
          tail))"

text \<open>\<^verbatim>\<open>PurePosixPath(p).name\<close>: the last component of the parsed path, where empty
  components and \<^verbatim>\<open>.\<close> are dropped; empty when nothing is left.\<close>

definition path_name :: "string \<Rightarrow> string" where
  "path_name p =
     (let parts = filter (\<lambda>x. x \<noteq> [] \<and> x \<noteq> ''.'') (str_split CHR ''/'' p)
      in if parts = [] then [] else last parts)"

text \<open>\<^verbatim>\<open>PurePosixPath(p).stem\<close>: the name without its last suffix; a name that
  starts or ends with its only candidate dot has no suffix.\<close>

definition path_stem :: "string \<Rightarrow> string" where
  "path_stem p =
     (let name = path_name p;
          i = str_rfind name CHR ''.''
      in if 0 < i \<and> i < int (length name) - 1 then take (nat i) name else name)"

subsection \<open>Exceptions\<close>

datatype oserror =
  FileExistsError | FileNotFoundError | NotADirectoryError | IsADirectoryError | PermissionError

text \<open>The exceptions a handler can end with: the \<^verbatim>\<open>HTTPException\<close> of the validator
  (status code and detail), an \<^verbatim>\<open>OSError\<close> of the local file system (with the
  path), and whatever a function of \<^verbatim>\<open>remote_docker_api\<close> raised.\<close>

datatype exn =
  HTTPException nat string
| OSError oserror string
| RemoteError string

subsection \<open>The extension validator\<close>

definition ALLOWED_EVM_EXTENSIONS :: "string set" where
  "ALLOWED_EVM_EXTENSIONS = {''.sol'', ''.txt''}"

definition ALLOWED_NON_EVM_EXTENSIONS :: "string set" where
  "ALLOWED_NON_EVM_EXTENSIONS = {''.rs'', ''.wasm''}"

definition validate_extension :: "string \<Rightarrow> string set \<Rightarrow> exn + unit" where
  "validate_extension filename allowed_extensions =
     (let ext = str_lower (snd (os_path_splitext filename))
      in if ext \<notin> allowed_extensions
         then Inl (HTTPException 400 (''File type '' @ ext @ '' not allowed.''))
         else Inr ())"

subsection \<open>The local file system\<close>

text \<open>A path names a directory or a regular file. The flag of a regular file says
  whether \<^verbatim>\<open>os.remove\<close> succeeds on it (it fails with \<^verbatim>\<open>PermissionError\<close>
  otherwise). The file system maps each path, as the program spells it relative to the
  working directory, to its node; the first binding of a path counts. Paths are told
  apart by their spelling: the model has no symbolic links, and does not resolve
  \<^verbatim>\<open>..\<close> or repeated slashes.\<close>

datatype node = Directory | RegularFile bool

type_synonym filesystem = "(string \<times> node) list"

definition os_path_exists :: "filesystem \<Rightarrow> string \<Rightarrow> bool" where
  "os_path_exists fs p = (map_of fs p \<noteq> None)"

definition os_path_isdir :: "filesystem \<Rightarrow> string \<Rightarrow> bool" where
  "os_path_isdir fs p = (map_of fs p = Some Directory)"

text \<open>\<^verbatim>\<open>os.mkdir(p)\<close>: the path must be new and its parent must be a directory (the
  working directory, when the head is empty).\<close>

definition fs_mkdir :: "string \<Rightarrow> filesystem \<Rightarrow> oserror + filesystem" where
  "fs_mkdir p fs =
     (if p = [] then Inl FileNotFoundError
      else if map_of fs p \<noteq> None then Inl FileExistsError
      else let head = fst (os_path_split p)
           in if head = [] then Inr (fs @ [(p, Directory)])
              else (case map_of fs head of
                      None \<Rightarrow> Inl FileNotFoundError
                    | Some Directory \<Rightarrow> Inr (fs @ [(p, Directory)])
                    | Some (RegularFile _) \<Rightarrow> Inl NotADirectoryError))"

text \<open>The last step of \<^verbatim>\<open>os.makedirs(name, exist_ok=True)\<close>: \<^verbatim>\<open>mkdir\<close>, whose
  \<^verbatim>\<open>OSError\<close> is dropped when the path is a directory already.\<close>

definition makedirs_mkdir :: "string \<Rightarrow> filesystem \<Rightarrow> (exn + unit) \<times> filesystem" where
  "makedirs_mkdir name fs =
     (case fs_mkdir name fs of
        Inr fs' \<Rightarrow> (Inr (), fs')
      | Inl e \<Rightarrow> if os_path_isdir fs name then (Inr (), fs) else (Inl (OSError e name), fs))"

text \<open>Head and tail as \<^verbatim>\<open>os.makedirs\<close> computes them: the path is split once more
  when it ends with a slash.\<close>

definition makedirs_split :: "string \<Rightarrow> string \<times> string" where
  "makedirs_split name =
     (let (head, tail) = os_path_split name
      in if tail = [] then os_path_split head else (head, tail))"

lemma length_rstrip_le: "length (rev (dropWhile P (rev xs))) \<le> length xs"
  by (simp add: length_dropWhile_le [of P "rev xs", simplified])

lemma os_path_split_tail_length:
  assumes "snd (os_path_split p) \<noteq> []"
  shows "length (fst (os_path_split p)) < length p"
proof -
  define i where "i = nat (str_rfind p CHR ''/'' + 1)"
  from assms have "drop i p \<noteq> []"
    by (simp add: os_path_split_def Let_def i_def)
  then have "i < length p" by simp
  moreover have "length (fst (os_path_split p)) \<le> length (take i p)"
    using length_rstrip_le [of "\<lambda>c. c = CHR ''/''" "take i p"]
    by (simp add: os_path_split_def Let_def i_def)
  ultimately show ?thesis by simp
qed

lemma os_path_split_head_length: "length (fst (os_path_split p)) \<le> length p"
proof -
  define i where "i = nat (str_rfind p CHR ''/'' + 1)"
  have "length (fst (os_path_split p)) \<le> length (take i p)"
    using length_rstrip_le [of "\<lambda>c. c = CHR ''/''" "take i p"]
    by (simp add: os_path_split_def Let_def i_def)
  then show ?thesis by simp
qed

lemma makedirs_split_length:
  assumes "snd (makedirs_split name) \<noteq> []"
  shows "length (fst (makedirs_split name)) < length name"
proof (cases "snd (os_path_split name) = []")
  case True
  then have eq: "makedirs_split name = os_path_split (fst (os_path_split name))"
    by (simp add: makedirs_split_def split_beta)
  with assms have "length (fst (makedirs_split name)) < length (fst (os_path_split name))"
    using os_path_split_tail_length [of "fst (os_path_split name)"] by simp
  then show ?thesis
    using os_path_split_head_length [of name] by simp
next
  case False
  then have "makedirs_split name = os_path_split name"
    by (simp add: makedirs_split_def split_beta)
  with False show ?thesis
    using os_path_split_tail_length [of name] by simp
qed

text \<open>\<^verbatim>\<open>os.makedirs(name, exist_ok=True)\<close>: the missing ancestors are made first; a
  \<^verbatim>\<open>FileExistsError\<close> from that recursion is dropped, every other exception
  leaves.\<close>

function fs_makedirs :: "string \<Rightarrow> filesystem \<Rightarrow> (exn + unit) \<times> filesystem" where
  "fs_makedirs name fs =
     (if fst (makedirs_split name) \<noteq> [] \<and> snd (makedirs_split name) \<noteq> []
         \<and> \<not> os_path_exists fs (fst (makedirs_split name))
      then (case fs_makedirs (fst (makedirs_split name)) fs of
              (Inl (OSError FileExistsError q), fs') \<Rightarrow>
                if snd (makedirs_split name) = ''.'' then (Inr (), fs')
                else makedirs_mkdir name fs'
            | (Inl e, fs') \<Rightarrow> (Inl e, fs')
            | (Inr u, fs') \<Rightarrow>
                if snd (makedirs_split name) = ''.'' then (Inr (), fs')
                else makedirs_mkdir name fs')
      else makedirs_mkdir name fs)"
  by pat_completeness auto
termination
  by (relation "measure (\<lambda>(name, fs). length name)") (auto simp: makedirs_split_length)

declare fs_makedirs.simps [simp del]

text \<open>\<^verbatim>\<open>os.remove(p)\<close>.\<close>

definition fs_remove :: "string \<Rightarrow> filesystem \<Rightarrow> oserror + filesystem" where
  "fs_remove p fs =
     (case map_of fs p of
        None \<Rightarrow> Inl FileNotFoundError
      | Some Directory \<Rightarrow> Inl IsADirectoryError
      | Some (RegularFile ok) \<Rightarrow>
          if ok then Inr (filter (\<lambda>(q, n). q \<noteq> p) fs) else Inl PermissionError)"

text \<open>The name under which a path is an entry of the directory \<open>d\<close>, if it is one:
  the path is \<^verbatim>\<open>os.path.join(d, n)\<close> for a name \<open>n\<close> that is not empty and has no
  slash. The empty \<open>d\<close> is the working directory.\<close>

definition entry_name :: "string \<Rightarrow> string \<Rightarrow> string option" where
  "entry_name d p =
     (let pre = os_path_join d [];
          n = drop (length pre) p
      in if take (length pre) p = pre \<and> n \<noteq> [] \<and> CHR ''/'' \<notin> set n then Some n else None)"

text \<open>The names \<^verbatim>\<open>glob._listdir\<close> yields: the entries of the directory (only the
  directories among them when \<open>dironly\<close>), and nothing when it cannot be read.\<close>

definition glob_listdir :: "filesystem \<Rightarrow> string \<Rightarrow> bool \<Rightarrow> string list" where
  "glob_listdir fs dirname dironly =
     (if dirname \<noteq> [] \<and> \<not> os_path_isdir fs dirname then []
      else filter (\<lambda>n. \<not> dironly \<or> os_path_isdir fs (os_path_join dirname n))
             (remdups (List.map_filter (\<lambda>(p, k). entry_name dirname p) fs)))"

subsection \<open>\<^verbatim>\<open>fnmatch\<close> and \<^verbatim>\<open>glob\<close>\<close>

text \<open>The index of the bracket that closes a character class, counted from the
  character after the opening bracket, as \<^verbatim>\<open>fnmatch.translate\<close> looks for it: a
  leading \<^verbatim>\<open>!\<close> and a closing bracket right after it are skipped. Without a
  closing bracket the opening one is an ordinary character.\<close>

definition bracket_end :: "string \<Rightarrow> nat option" where
  "bracket_end ps =
     (let j0 = (if ps \<noteq> [] \<and> hd ps = CHR ''!'' then 1 else 0);
          j1 = (if j0 < length ps \<and> ps ! j0 = CHR '']'' then Suc j0 else j0);
          j = j1 + length (takeWhile (\<lambda>c. c \<noteq> CHR '']'') (drop j1 ps))
      in if j \<ge> length ps then None else Some j)"

definition str_find_from :: "string \<Rightarrow> char \<Rightarrow> nat \<Rightarrow> nat option" where
  "str_find_from s c start =
     (if c \<in> set (drop start s)
      then Some (start + length (takeWhile (\<lambda>x. x \<noteq> c) (drop start s)))
      else None)"

lemma str_find_from_nonempty: "str_find_from s c start = Some k \<Longrightarrow> s \<noteq> []"
  by (auto simp: str_find_from_def split: if_splits)

text \<open>The chunks of a class between the hyphens that make ranges (Python 3.9 and
  later): a hyphen ends a chunk when it is not the first character of the class, and
  not among the first two characters after the previous range hyphen.\<close>

function class_chunks :: "nat \<Rightarrow> string \<Rightarrow> string list" where
  "class_chunks start s =
     (case str_find_from s CHR ''-'' start of
        None \<Rightarrow> [s]
      | Some k \<Rightarrow> take k s # class_chunks 2 (drop (Suc k) s))"
  by pat_completeness auto
termination
  by (relation "measure (\<lambda>(start, s). length s)") (auto dest: str_find_from_nonempty)

declare class_chunks.simps [simp del]

text \<open>A hyphen that ends the class is an ordinary character of the chunk before it.\<close>

definition class_tail :: "string list \<Rightarrow> string list" where
  "class_tail chunks =
     (if length chunks > 1 \<and> last chunks = []
      then butlast (butlast chunks) @ [last (butlast chunks) @ ''-'']
      else chunks)"

text \<open>Ranges whose lower end is above the upper end are removed with both ends, from
  the right.\<close>

fun class_ranges :: "string list \<Rightarrow> string list" where
  "class_ranges [] = []"
| "class_ranges (c # cs) =
     (case class_ranges cs of
        [] \<Rightarrow> [c]
      | d # ds \<Rightarrow>
          if c \<noteq> [] \<and> d \<noteq> [] \<and> (of_char (last c) :: nat) > of_char (hd d)
          then (butlast c @ tl d) # ds
          else c # d # ds)"

fun in_ranges :: "string list \<Rightarrow> char \<Rightarrow> bool" where
  "in_ranges (c # d # ds) x =
     ((c \<noteq> [] \<and> d \<noteq> [] \<and> (of_char (last c) :: nat) \<le> of_char x
         \<and> (of_char x :: nat) \<le> of_char (hd d))
      \<or> in_ranges (d # ds) x)"
| "in_ranges cs x = False"

text \<open>Whether the character \<open>x\<close> is in the class written between the brackets.\<close>

definition class_match :: "string \<Rightarrow> char \<Rightarrow> bool" where
  "class_match stuff x =
     (let chunks = (if CHR ''-'' \<notin> set stuff then [stuff]
                    else class_ranges (class_tail
                           (class_chunks (if stuff \<noteq> [] \<and> hd stuff = CHR ''!'' then 2 else 1) stuff)));
          negated = (concat chunks \<noteq> [] \<and> hd (concat chunks) = CHR ''!'');
          listed = (if negated then tl (concat chunks) else concat chunks);
          inside = (x \<in> set listed \<or> in_ranges chunks x)
      in if negated then \<not> inside else inside)"

text \<open>\<^verbatim>\<open>fnmatch.fnmatchcase(name, pat)\<close>: the whole name matches the pattern, where
  \<^verbatim>\<open>*\<close> stands for any string, \<^verbatim>\<open>?\<close> for any character and a bracket for a
  class.\<close>

function fnmatchcase :: "string \<Rightarrow> string \<Rightarrow> bool" where
  "fnmatchcase name [] = (name = [])"
| "fnmatchcase name (p # ps) =
     (if p = CHR ''*'' then
        (case name of
           [] \<Rightarrow> fnmatchcase [] ps
         | x # xs \<Rightarrow> fnmatchcase (x # xs) ps \<or> fnmatchcase xs (p # ps))
      else if p = CHR ''?'' then
        (case name of [] \<Rightarrow> False | x # xs \<Rightarrow> fnmatchcase xs ps)
      else if p = CHR ''['' then
        (case bracket_end ps of
           None \<Rightarrow> (case name of [] \<Rightarrow> False | x # xs \<Rightarrow> x = p \<and> fnmatchcase xs ps)
         | Some j \<Rightarrow>
             (case name of
                [] \<Rightarrow> False
              | x # xs \<Rightarrow> class_match (take j ps) x \<and> fnmatchcase xs (drop (Suc j) ps)))
      else
        (case name of [] \<Rightarrow> False | x # xs \<Rightarrow> x = p \<and> fnmatchcase xs ps))"
  by pat_completeness auto
termination
  by (relation "measure (\<lambda>(name, pat). length name + length pat)") auto

declare fnmatchcase.simps [simp del]

definition has_magic :: "string \<Rightarrow> bool" where
  "has_magic s = (\<exists>c \<in> set s. c = CHR ''*'' \<or> c = CHR ''?'' \<or> c = CHR ''['')"

definition ishidden :: "string \<Rightarrow> bool" where
  "ishidden s = (s \<noteq> [] \<and> hd s = CHR ''.'')"

text \<open>\<^verbatim>\<open>glob._glob1\<close>: the entries of a directory that match a pattern; a pattern that
  does not start with a dot leaves the names that start with a dot out.\<close>

definition glob1 :: "filesystem \<Rightarrow> string \<Rightarrow> string \<Rightarrow> bool \<Rightarrow> string list" where
  "glob1 fs dirname pattern dironly =
     (let names = glob_listdir fs dirname dironly;
          names = (if \<not> ishidden pattern then filter (\<lambda>x. \<not> ishidden x) names else names)
      in filter (\<lambda>n. fnmatchcase n pattern) names)"

text \<open>\<^verbatim>\<open>glob._glob0\<close>: a last component without wildcards is kept when it exists.\<close>

definition glob0 :: "filesystem \<Rightarrow> string \<Rightarrow> string \<Rightarrow> bool \<Rightarrow> string list" where
  "glob0 fs dirname basename dironly =
     (if basename \<noteq> []
      then (if os_path_exists fs (os_path_join dirname basename) then [basename] else [])
      else (if os_path_isdir fs dirname then [basename] else []))"

lemma rstrip_prefix: "prefix (rev (dropWhile P (rev xs))) xs"
proof -
  have "xs = rev (dropWhile P (rev xs)) @ rev (takeWhile P (rev xs))"
    by (metis rev_append rev_rev_ident takeWhile_dropWhile_id)
  then show ?thesis
    by (metis prefixI)
qed

lemma os_path_split_prefix: "prefix (fst (os_path_split p)) p"
proof -
  define i where "i = nat (str_rfind p CHR ''/'' + 1)"
  have "prefix (fst (os_path_split p)) (take i p)"
    using rstrip_prefix [of "\<lambda>c. c = CHR ''/''" "take i p"]
    by (simp add: os_path_split_def Let_def i_def)
  moreover have "prefix (take i p) p"
    by (simp add: take_is_prefix)
  ultimately show ?thesis
    by (rule prefix_order.trans)
qed

lemma os_path_split_shorter:
  "fst (os_path_split p) \<noteq> p \<Longrightarrow> length (fst (os_path_split p)) < length p"
  using os_path_split_prefix [of p] by (simp add: prefix_length_less strict_prefix_def)

text \<open>\<^verbatim>\<open>glob._iglob\<close> without \<^verbatim>\<open>recursive\<close>, \<^verbatim>\<open>root_dir\<close> and
  \<^verbatim>\<open>include_hidden\<close>: a directory part with wildcards is expanded first, then the
  last component is matched in each directory found.\<close>

function iglob :: "filesystem \<Rightarrow> string \<Rightarrow> bool \<Rightarrow> string list" where
  "iglob fs pathname dironly =
     (if \<not> has_magic pathname then
        (if snd (os_path_split pathname) \<noteq> []
         then (if os_path_exists fs pathname then [pathname] else [])
         else (if os_path_isdir fs (fst (os_path_split pathname)) then [pathname] else []))
      else if fst (os_path_split pathname) = [] then
        glob1 fs [] (snd (os_path_split pathname)) dironly
      else
        concat (map (\<lambda>dirname.
                  map (os_path_join dirname)
                    ((if has_magic (snd (os_path_split pathname)) then glob1 else glob0)
                       fs dirname (snd (os_path_split pathname)) dironly))
               (if fst (os_path_split pathname) \<noteq> pathname
                   \<and> has_magic (fst (os_path_split pathname))
                then iglob fs (fst (os_path_split pathname)) True
                else [fst (os_path_split pathname)])))"
  by pat_completeness auto
termination
  by (relation "measure (\<lambda>(fs, pathname, dironly). length pathname)")
     (auto simp: os_path_split_shorter)

declare iglob.simps [simp del]

text \<open>\<^verbatim>\<open>glob.glob(pathname)\<close>.\<close>

definition fs_glob :: "filesystem \<Rightarrow> string \<Rightarrow> string list" where
  "fs_glob fs pathname = iglob fs pathname False"

subsection \<open>The world of a request\<close>

type_synonym bytes = "char list"

text \<open>A value that serialises as JSON: what the remote runner returns and what a
  handler puts into its response.\<close>

datatype json =
  JNull | JBool bool | JNum int | JStr string | JList "json list" | JObj "(string \<times> json) list"

text \<open>The calls a handler makes outside its own memory, with their arguments.\<close>

datatype call =
  Makedirs string
| Glob string
| Remove string
| ReadFile string
| UploadToRemote bytes string string
| TriggerDockerTest string string
| FetchFromRemote string string

text \<open>The local file system, the state of the remote runner, and the calls made so
  far, in order.\<close>

record 'r world =
  fs :: filesystem
  remote :: 'r
  calls :: "call list"

text \<open>The module \<^verbatim>\<open>remote_docker_api\<close> is not part of the repository: its three
  functions are parameters. Each one takes the state of the remote runner and returns
  its result, or the message of the exception it raised, with the new state.\<close>

record 'r remote_docker_api =
  upload_to_remote_container_memory ::
    "bytes \<Rightarrow> string \<Rightarrow> string \<Rightarrow> 'r \<Rightarrow> (string + unit) \<times> 'r"
  trigger_docker_test :: "string \<Rightarrow> string \<Rightarrow> 'r \<Rightarrow> (string + json) \<times> 'r"
  fetch_from_remote_container :: "string \<Rightarrow> string \<Rightarrow> 'r \<Rightarrow> (string + json) \<times> 'r"

text \<open>The uploaded file of the multipart request: its name as the client sent it, and
  its bytes.\<close>

record upload_file =
  filename :: string
  body :: bytes

text \<open>A \<^verbatim>\<open>JSONResponse\<close>: the content and the headers the handler passes.\<close>

record response =
  content :: json
  headers :: "(string \<times> string) list"

definition os_makedirs :: "string \<Rightarrow> 'r world \<Rightarrow> (exn + unit) \<times> 'r world" where
  "os_makedirs name w =
     (case fs_makedirs name (fs w) of
        (res, fs') \<Rightarrow> (res, w\<lparr>fs := fs', calls := calls w @ [Makedirs name]\<rparr>))"

definition glob_glob :: "string \<Rightarrow> 'r world \<Rightarrow> string list \<times> 'r world" where
  "glob_glob pattern w = (fs_glob (fs w) pattern, w\<lparr>calls := calls w @ [Glob pattern]\<rparr>)"

definition os_remove :: "string \<Rightarrow> 'r world \<Rightarrow> (exn + unit) \<times> 'r world" where
  "os_remove p w =
     (case fs_remove p (fs w) of
        Inl e \<Rightarrow> (Inl (OSError e p), w\<lparr>calls := calls w @ [Remove p]\<rparr>)
      | Inr fs' \<Rightarrow> (Inr (), w\<lparr>fs := fs', calls := calls w @ [Remove p]\<rparr>))"

definition read_file :: "upload_file \<Rightarrow> 'r world \<Rightarrow> bytes \<times> 'r world" where
  "read_file f w = (body f, w\<lparr>calls := calls w @ [ReadFile (filename f)]\<rparr>)"

definition call_upload ::
  "'r remote_docker_api \<Rightarrow> bytes \<Rightarrow> string \<Rightarrow> string \<Rightarrow> 'r world \<Rightarrow> (exn + unit) \<times> 'r world" where
  "call_upload api contents name contract_type w =
     (case upload_to_remote_container_memory api contents name contract_type (remote w) of
        (res, r') \<Rightarrow>
          (case res of Inl m \<Rightarrow> Inl (RemoteError m) | Inr u \<Rightarrow> Inr u,
           w\<lparr>remote := r', calls := calls w @ [UploadToRemote contents name contract_type]\<rparr>))"

definition call_trigger ::
  "'r remote_docker_api \<Rightarrow> string \<Rightarrow> string \<Rightarrow> 'r world \<Rightarrow> (exn + json) \<times> 'r world" where
  "call_trigger api name contract_type w =
     (case trigger_docker_test api name contract_type (remote w) of
        (res, r') \<Rightarrow>
          (case res of Inl m \<Rightarrow> Inl (RemoteError m) | Inr v \<Rightarrow> Inr v,
           w\<lparr>remote := r', calls := calls w @ [TriggerDockerTest name contract_type]\<rparr>))"

definition call_fetch ::
  "'r remote_docker_api \<Rightarrow> string \<Rightarrow> string \<Rightarrow> 'r world \<Rightarrow> (exn + json) \<times> 'r world" where
  "call_fetch api name contract_type w =
     (case fetch_from_remote_container api name contract_type (remote w) of
        (res, r') \<Rightarrow>
          (case res of Inl m \<Rightarrow> Inl (RemoteError m) | Inr v \<Rightarrow> Inr v,
           w\<lparr>remote := r', calls := calls w @ [FetchFromRemote name contract_type]\<rparr>))"

subsection \<open>Cleanup of old artifacts\<close>

text \<open>The inner loop: every file of the list is removed, and whatever \<^verbatim>\<open>os.remove\<close>
  raises is dropped.\<close>

fun remove_files :: "string list \<Rightarrow> 'r world \<Rightarrow> 'r world" where
  "remove_files [] w = w"
| "remove_files (file # files) w =
     (case os_remove file w of
        (Inl e, w') \<Rightarrow> remove_files files w'
      | (Inr u, w') \<Rightarrow> remove_files files w')"

text \<open>The outer loop: each pattern is expanded when its turn comes.\<close>

fun remove_patterns :: "string list \<Rightarrow> 'r world \<Rightarrow> 'r world" where
  "remove_patterns [] w = w"
| "remove_patterns (pattern # patterns) w =
     (case glob_glob pattern w of
        (files, w') \<Rightarrow> remove_patterns patterns (remove_files files w'))"

definition cleanup_old_artifacts :: "string \<Rightarrow> string \<Rightarrow> 'r world \<Rightarrow> (exn + unit) \<times> 'r world" where
  "cleanup_old_artifacts contract_name contract_type w =
     (let local_input_dir = os_path_join ''uploaded_contracts'' contract_type;
          local_report_dir = os_path_join ''test_summaries'' contract_type
      in case os_makedirs local_input_dir w of
           (Inl e, w1) \<Rightarrow> (Inl e, w1)
         | (Inr u, w1) \<Rightarrow>
             (case os_makedirs local_report_dir w1 of
                (Inl e, w2) \<Rightarrow> (Inl e, w2)
              | (Inr u, w2) \<Rightarrow>
                  (Inr (),
                   remove_patterns
                     [os_path_join local_input_dir (contract_name @ ''*''),
                      os_path_join local_report_dir (contract_name @ ''*'')] w2)))"

subsection \<open>The handlers\<close>

definition process_evm_contract :: "bytes \<Rightarrow> string \<Rightarrow> json" where
  "process_evm_contract file_contents name =
     JObj [(''contract_type'', JStr ''evm''), (''filename'', JStr name),
           (''status'', JStr ''processed'')]"

definition process_non_evm_contract :: "bytes \<Rightarrow> string \<Rightarrow> json" where
  "process_non_evm_contract file_contents name =
     JObj [(''contract_type'', JStr ''non-evm''), (''filename'', JStr name),
           (''status'', JStr ''processed'')]"

definition upload_evm_contract ::
  "'r remote_docker_api \<Rightarrow> upload_file \<Rightarrow> 'r world \<Rightarrow> (exn + response) \<times> 'r world" where
  "upload_evm_contract api contract_file w =
     (case validate_extension (filename contract_file) ALLOWED_EVM_EXTENSIONS of
        Inl e \<Rightarrow> (Inl e, w)
      | Inr u \<Rightarrow>
     (let base_name = str_lower (str_strip (path_stem (filename contract_file)))
      in case cleanup_old_artifacts base_name ''evm'' w of
        (Inl e, w1) \<Rightarrow> (Inl e, w1)
      | (Inr u, w1) \<Rightarrow>
     (case read_file contract_file w1 of (contents, w2) \<Rightarrow>
     (case call_upload api contents (filename contract_file) ''evm'' w2 of
        (Inl e, w3) \<Rightarrow> (Inl e, w3)
      | (Inr u, w3) \<Rightarrow>
     (case call_trigger api (filename contract_file) ''evm'' w3 of
        (Inl e, w4) \<Rightarrow> (Inl e, w4)
      | (Inr logs, w4) \<Rightarrow>
     (let report_filename = base_name @ ''-report.md''
      in case call_fetch api report_filename ''evm'' w4 of
        (Inl e, w5) \<Rightarrow> (Inl e, w5)
      | (Inr aggregated_content, w5) \<Rightarrow>
     (let result = process_evm_contract contents (filename contract_file)
      in (Inr \<lparr>content = JObj
                 [(''message'', JStr ''EVM contract processed''),
                  (''filename'', JStr (filename contract_file)),
                  (''docker_logs'', logs),
                  (''aggregated_report'', aggregated_content),
                  (''details'', result)],
               headers = []\<rparr>, w5))))))))"

definition upload_non_evm_contract ::
  "'r remote_docker_api \<Rightarrow> upload_file \<Rightarrow> 'r world \<Rightarrow> (exn + response) \<times> 'r world" where
  "upload_non_evm_contract api contract_file w =
     (case validate_extension (filename contract_file) ALLOWED_NON_EVM_EXTENSIONS of
        Inl e \<Rightarrow> (Inl e, w)
      | Inr u \<Rightarrow>
     (let base_name = str_lower (str_strip (path_stem (filename contract_file)))
      in case cleanup_old_artifacts base_name ''non-evm'' w of
        (Inl e, w1) \<Rightarrow> (Inl e, w1)
      | (Inr u, w1) \<Rightarrow>
     (case read_file contract_file w1 of (contents, w2) \<Rightarrow>
     (case call_upload api contents (filename contract_file) ''non-evm'' w2 of
        (Inl e, w3) \<Rightarrow> (Inl e, w3)
      | (Inr u, w3) \<Rightarrow>
     (case call_trigger api (filename contract_file) ''non-evm'' w3 of
        (Inl e, w4) \<Rightarrow> (Inl e, w4)
      | (Inr logs, w4) \<Rightarrow>
     (let report_filename = base_name @ ''-report.md''
      in case call_fetch api report_filename ''non-evm'' w4 of
        (Inl e, w5) \<Rightarrow> (Inl e, w5)
      | (Inr aggregated_content, w5) \<Rightarrow>
     (let result = process_non_evm_contract contents (filename contract_file)
      in (Inr \<lparr>content = JObj
                 [(''message'', JStr ''Non-EVM contract processed''),
                  (''filename'', JStr (filename contract_file)),
                  (''docker_logs'', logs),
                  (''aggregated_report'', aggregated_content),
                  (''details'', result)],
               headers = []\<rparr>, w5))))))))"

definition get_test_results ::
  "'r remote_docker_api \<Rightarrow> string \<Rightarrow> 'r world \<Rightarrow> (exn + response) \<times> 'r world" where
  "get_test_results api name w =
     (let base = str_lower (str_strip (path_stem name));
          report_filename = base @ ''-report.md''
      in case call_fetch api report_filename ''evm'' w of
        (Inl e, w1) \<Rightarrow> (Inl e, w1)
      | (Inr aggregated, w1) \<Rightarrow>
          (Inr \<lparr>content = JObj [(''filename'', JStr name), (''aggregated_report'', aggregated)],
                headers = [(''Cache-Control'', ''no-store, no-cache, must-revalidate, max-age=0'')]\<rparr>,
           w1))"

definition get_non_evm_test_results ::
  "'r remote_docker_api \<Rightarrow> string \<Rightarrow> 'r world \<Rightarrow> (exn + response) \<times> 'r world" where
  "get_non_evm_test_results api name w =
     (let base = str_lower (str_strip (path_stem name));
          report_filename = base @ ''-report.md''
      in case call_fetch api report_filename ''non-evm'' w of
        (Inl e, w1) \<Rightarrow> (Inl e, w1)
      | (Inr aggregated, w1) \<Rightarrow>
          (Inr \<lparr>content = JObj [(''filename'', JStr name), (''aggregated_report'', aggregated)],
                headers = [(''Cache-Control'', ''no-store, no-cache, must-revalidate, max-age=0'')]\<rparr>,
           w1))"

subsection \<open>Reading a response and the log of calls\<close>

text \<open>The value of a key of a JSON object, and the keys of the object in order.\<close>

definition json_get :: "json \<Rightarrow> string \<Rightarrow> json option" where
  "json_get j k = (case j of JObj kvs \<Rightarrow> map_of kvs k | _ \<Rightarrow> None)"

definition json_keys :: "json \<Rightarrow> string list" where
  "json_keys j = (case j of JObj kvs \<Rightarrow> map fst kvs | _ \<Rightarrow> [])"

text \<open>The calls that touch the local file system only.\<close>

definition local_call :: "call \<Rightarrow> bool" where
  "local_call c = (case c of Makedirs p \<Rightarrow> True | Glob p \<Rightarrow> True | Remove p \<Rightarrow> True | _ \<Rightarrow> False)"

subsection \<open>Words of the claims about the cleanup\<close>

text \<open>Something other than a directory stands where the directory \<open>par/t\<close>, or its
  parent \<open>par\<close>, should be: \<^verbatim>\<open>os.makedirs\<close> cannot make the directory.\<close>

definition blocked :: "filesystem \<Rightarrow> string \<Rightarrow> string \<Rightarrow> bool" where
  "blocked F par t =
     (case map_of F (par @ CHR ''/'' # t) of
        Some Directory \<Rightarrow> False
      | Some (RegularFile ok) \<Rightarrow> True
      | None \<Rightarrow> (case map_of F par of Some (RegularFile ok) \<Rightarrow> True | _ \<Rightarrow> False))"

text \<open>The path is an entry of \<^verbatim>\<open>uploaded_contracts/<type>\<close> or of
  \<^verbatim>\<open>test_summaries/<type>\<close> whose name starts with the contract name (and does not
  start with a dot when the contract name is empty).\<close>

definition old_artifact :: "string \<Rightarrow> string \<Rightarrow> string \<Rightarrow> bool" where
  "old_artifact contract_name contract_type p =
     (\<exists>d \<in> {os_path_join ''uploaded_contracts'' contract_type,
              os_path_join ''test_summaries'' contract_type}.
        case entry_name d p of
          None \<Rightarrow> False
        | Some n \<Rightarrow> prefix contract_name n \<and> \<not> (contract_name = [] \<and> ishidden n))"

text \<open>A path component that is a plain name: not empty, not \<^verbatim>\<open>.\<close>, without a slash
  and without a wildcard.\<close>

definition plain_component :: "string \<Rightarrow> bool" where
  "plain_component t = (t \<noteq> [] \<and> t \<noteq> ''.'' \<and> CHR ''/'' \<notin> set t \<and> \<not> has_magic t)"

subsection \<open>Concrete inputs\<close>

text \<open>A remote runner that never fails and counts its calls, a small file system and
  an upload, used to run the handlers on concrete inputs.\<close>

definition example_api :: "nat remote_docker_api" where
  "example_api =
     \<lparr>upload_to_remote_container_memory = (\<lambda>contents name t r. (Inr (), Suc r)),
      trigger_docker_test = (\<lambda>name t r. (Inr (JStr ''2 passed''), Suc r)),
      fetch_from_remote_container = (\<lambda>name t r. (Inr (JStr name), Suc r))\<rparr>"

definition example_world :: "nat world" where
  "example_world =
     \<lparr>fs = [(''uploaded_contracts'', Directory),
            (''uploaded_contracts/evm'', Directory),
            (''uploaded_contracts/evm/mytoken.sol'', RegularFile True),
            (''uploaded_contracts/evm/mytoken.lock'', RegularFile False),
            (''uploaded_contracts/evm/other.sol'', RegularFile True)],
      remote = 0, calls = []\<rparr>"

definition example_file :: upload_file where
  "example_file = \<lparr>filename = ''MyToken.sol'', body = ''contract''\<rparr>"

subsection \<open>The name of the report\<close>



section \<open>Properties of the string and path functions\<close>

lemma lower_char_eq_iff:
  assumes "(of_char c :: nat) < 65"
  shows "lower_char x = c \<longleftrightarrow> x = c"
proof -
  have lt: "(of_char x :: nat) < 256" by simp
  show ?thesis
  proof (cases "(65 \<le> (of_char x :: nat) \<and> (of_char x :: nat) \<le> 90) \<or> (192 \<le> (of_char x :: nat) \<and> (of_char x :: nat) \<le> 222 \<and> (of_char x :: nat) \<noteq> 215)")
    case True
    then have "lower_char x = char_of ((of_char x :: nat) + 32)"
      by (simp add: lower_char_def Let_def)
    moreover have "((of_char x :: nat) + 32) mod 256 = of_char x + 32"
      using True by auto
    ultimately have "lower_char x = c \<longleftrightarrow> (of_char x :: nat) + 32 = of_char c"
      by (simp add: char_of_eq_iff take_bit_eq_mod)
    moreover have "x \<noteq> c" using True assms by auto
    ultimately show ?thesis using True assms by auto
  next
    case False
    then show ?thesis by (auto simp: lower_char_def Let_def)
  qed
qed

lemma lower_char_dot [simp]: "lower_char x = CHR ''.'' \<longleftrightarrow> x = CHR ''.''"
  by (rule lower_char_eq_iff) simp

lemma lower_char_slash [simp]: "lower_char x = CHR ''/'' \<longleftrightarrow> x = CHR ''/''"
  by (rule lower_char_eq_iff) simp

lemma lower_char_idem [simp]: "lower_char (lower_char x) = lower_char x"
proof (cases "(65 \<le> (of_char x :: nat) \<and> (of_char x :: nat) \<le> 90) \<or> (192 \<le> (of_char x :: nat) \<and> (of_char x :: nat) \<le> 222 \<and> (of_char x :: nat) \<noteq> 215)")
  case True
  then have eq: "lower_char x = char_of ((of_char x :: nat) + 32)"
    by (simp add: lower_char_def Let_def)
  have "(of_char (char_of ((of_char x :: nat) + 32)) :: nat) = of_char x + 32"
    using True by (auto simp: of_char_of)
  then show ?thesis
    using True unfolding eq by (auto simp: lower_char_def Let_def)
next
  case False
  then show ?thesis by (auto simp: lower_char_def Let_def)
qed

lemma str_lower_idem [simp]: "str_lower (str_lower s) = str_lower s"
  by (simp add: str_lower_def)




lemma length_takeWhile_less: "x \<in> set xs \<Longrightarrow> \<not> P x \<Longrightarrow> length (takeWhile P xs) < length xs"
  by (induction xs) auto

lemma str_rfind_ge: "- 1 \<le> str_rfind s c"
proof -
  have "length (takeWhile (\<lambda>x. x \<noteq> c) (rev s)) < length s" if "c \<in> set s"
    using that length_takeWhile_less [of c "rev s" "\<lambda>x. x \<noteq> c"] by simp
  then show ?thesis
    by (auto simp: str_rfind_def)
qed




lemma validate_extension_Inr: "validate_extension f A = Inr u \<longleftrightarrow> str_lower (snd (os_path_splitext f)) \<in> A"
  by (simp add: validate_extension_def Let_def)

lemma validate_extension_Inl: "validate_extension f A = Inl e \<longleftrightarrow> 
   str_lower (snd (os_path_splitext f)) \<notin> A \<and> e = HTTPException 400 (''File type '' @ str_lower (snd (os_path_splitext f)) @ '' not allowed.'')"
  by (auto simp add: validate_extension_def Let_def)

section \<open>Properties of the handlers\<close>

lemma makedirs_mkdir_error:
  "makedirs_mkdir name F = (Inl e, F') \<Longrightarrow> \<exists>k p. e = OSError k p"
  by (auto simp: makedirs_mkdir_def split: sum.splits if_splits)

lemma fs_makedirs_error:
  "fs_makedirs name F = (Inl e, F') \<Longrightarrow> \<exists>k p. e = OSError k p"
proof (induction name F arbitrary: e F' rule: fs_makedirs.induct)
  case (1 name F)
  let ?c = "fst (makedirs_split name) \<noteq> [] \<and> snd (makedirs_split name) \<noteq> []
         \<and> \<not> os_path_exists F (fst (makedirs_split name))"
  show ?case
  proof (cases ?c)
    case True
    obtain res F1 where r: "fs_makedirs (fst (makedirs_split name)) F = (res, F1)"
      by (cases "fs_makedirs (fst (makedirs_split name)) F") auto
    show ?thesis
    proof (cases res)
      case (Inl e1)
      with "1.IH" [OF True] r obtain k p where "e1 = OSError k p" by blast
      with "1.prems" True r Inl show ?thesis
        by (subst (asm) fs_makedirs.simps)
           (auto split: if_splits oserror.splits dest: makedirs_mkdir_error)
    next
      case (Inr u)
      with "1.prems" True r show ?thesis
        by (subst (asm) fs_makedirs.simps) (auto split: if_splits dest: makedirs_mkdir_error)
    qed
  next
    case False
    with "1.prems" show ?thesis
      by (subst (asm) fs_makedirs.simps) (auto dest: makedirs_mkdir_error)
  qed
qed

lemma os_makedirs_error:
  "os_makedirs name w = (Inl e, w') \<Longrightarrow> \<exists>k p. e = OSError k p"
  by (auto simp: os_makedirs_def split: prod.splits dest: fs_makedirs_error)

lemma cleanup_old_artifacts_error:
  "cleanup_old_artifacts n t w = (Inl e, w') \<Longrightarrow> \<exists>k p. e = OSError k p"
  by (auto simp: cleanup_old_artifacts_def Let_def split: prod.splits sum.splits dest: os_makedirs_error)

lemma call_upload_error: "call_upload api c n t w = (Inl e, w') \<Longrightarrow> \<exists>m. e = RemoteError m"
  by (auto simp: call_upload_def split: prod.splits sum.splits)

lemma call_trigger_error: "call_trigger api n t w = (Inl e, w') \<Longrightarrow> \<exists>m. e = RemoteError m"
  by (auto simp: call_trigger_def split: prod.splits sum.splits)

lemma call_fetch_error: "call_fetch api n t w = (Inl e, w') \<Longrightarrow> \<exists>m. e = RemoteError m"
  by (auto simp: call_fetch_def split: prod.splits sum.splits)

lemma upload_evm_contract_rejected:
  assumes "str_lower (snd (os_path_splitext (filename cf))) \<notin> ALLOWED_EVM_EXTENSIONS"
  shows "upload_evm_contract api cf w =
    (Inl (HTTPException 400 (''File type '' @ str_lower (snd (os_path_splitext (filename cf))) @ '' not allowed.'')), w)"
  using assms by (simp add: upload_evm_contract_def validate_extension_def Let_def)

lemma upload_non_evm_contract_rejected:
  assumes "str_lower (snd (os_path_splitext (filename cf))) \<notin> ALLOWED_NON_EVM_EXTENSIONS"
  shows "upload_non_evm_contract api cf w =
    (Inl (HTTPException 400 (''File type '' @ str_lower (snd (os_path_splitext (filename cf))) @ '' not allowed.'')), w)"
  using assms by (simp add: upload_non_evm_contract_def validate_extension_def Let_def)

lemma upload_evm_contract_accepted:
  assumes "str_lower (snd (os_path_splitext (filename cf))) \<in> ALLOWED_EVM_EXTENSIONS"
  shows "fst (upload_evm_contract api cf w) \<noteq> Inl (HTTPException code detail)"
  using assms
  by (auto simp: upload_evm_contract_def validate_extension_def Let_def read_file_def
      split: prod.splits sum.splits
      dest: cleanup_old_artifacts_error call_upload_error call_trigger_error call_fetch_error)

lemma upload_non_evm_contract_accepted:
  assumes "str_lower (snd (os_path_splitext (filename cf))) \<in> ALLOWED_NON_EVM_EXTENSIONS"
  shows "fst (upload_non_evm_contract api cf w) \<noteq> Inl (HTTPException code detail)"
  using assms
  by (auto simp: upload_non_evm_contract_def validate_extension_def Let_def read_file_def
      split: prod.splits sum.splits
      dest: cleanup_old_artifacts_error call_upload_error call_trigger_error call_fetch_error)

lemma upload_evm_contract_Inr_iff:
  "upload_evm_contract api cf w = (Inr resp, w') \<longleftrightarrow>
     validate_extension (filename cf) ALLOWED_EVM_EXTENSIONS = Inr () \<and>
     (\<exists>w1 r1 r2 r3 logs report.
        cleanup_old_artifacts (str_lower (str_strip (path_stem (filename cf)))) ''evm'' w = (Inr (), w1) \<and>
        upload_to_remote_container_memory api (body cf) (filename cf) ''evm'' (remote w1) = (Inr (), r1) \<and>
        trigger_docker_test api (filename cf) ''evm'' r1 = (Inr logs, r2) \<and>
        fetch_from_remote_container api
          (str_lower (str_strip (path_stem (filename cf))) @ ''-report.md'') ''evm'' r2 = (Inr report, r3) \<and>
        resp = \<lparr>content = JObj
                 [(''message'', JStr ''EVM contract processed''),
                  (''filename'', JStr (filename cf)),
                  (''docker_logs'', logs),
                  (''aggregated_report'', report),
                  (''details'', JObj [(''contract_type'', JStr ''evm''), (''filename'', JStr (filename cf)),
                      (''status'', JStr ''processed'')])],
               headers = []\<rparr> \<and>
        w' = w1\<lparr>remote := r3,
                calls := calls w1 @
                  [ReadFile (filename cf),
                   UploadToRemote (body cf) (filename cf) ''evm'',
                   TriggerDockerTest (filename cf) ''evm'',
                   FetchFromRemote (str_lower (str_strip (path_stem (filename cf))) @ ''-report.md'') ''evm'']\<rparr>)"
  by (auto simp: upload_evm_contract_def Let_def read_file_def call_upload_def call_trigger_def
      call_fetch_def process_evm_contract_def
      split: prod.splits sum.splits)


lemma upload_non_evm_contract_Inr_iff:
  "upload_non_evm_contract api cf w = (Inr resp, w') \<longleftrightarrow>
     validate_extension (filename cf) ALLOWED_NON_EVM_EXTENSIONS = Inr () \<and>
     (\<exists>w1 r1 r2 r3 logs report.
        cleanup_old_artifacts (str_lower (str_strip (path_stem (filename cf)))) ''non-evm'' w = (Inr (), w1) \<and>
        upload_to_remote_container_memory api (body cf) (filename cf) ''non-evm'' (remote w1) = (Inr (), r1) \<and>
        trigger_docker_test api (filename cf) ''non-evm'' r1 = (Inr logs, r2) \<and>
        fetch_from_remote_container api
          (str_lower (str_strip (path_stem (filename cf))) @ ''-report.md'') ''non-evm'' r2 = (Inr report, r3) \<and>
        resp = \<lparr>content = JObj
                 [(''message'', JStr ''Non-EVM contract processed''),
                  (''filename'', JStr (filename cf)),
                  (''docker_logs'', logs),
                  (''aggregated_report'', report),
                  (''details'', JObj [(''contract_type'', JStr ''non-evm''), (''filename'', JStr (filename cf)),
                      (''status'', JStr ''processed'')])],
               headers = []\<rparr> \<and>
        w' = w1\<lparr>remote := r3,
                calls := calls w1 @
                  [ReadFile (filename cf),
                   UploadToRemote (body cf) (filename cf) ''non-evm'',
                   TriggerDockerTest (filename cf) ''non-evm'',
                   FetchFromRemote (str_lower (str_strip (path_stem (filename cf))) @ ''-report.md'') ''non-evm'']\<rparr>)"
  by (auto simp: upload_non_evm_contract_def Let_def read_file_def call_upload_def call_trigger_def
      call_fetch_def process_non_evm_contract_def
      split: prod.splits sum.splits)

lemma os_remove_frame:
  "os_remove p w = (res, w') \<Longrightarrow> remote w' = remote w \<and> calls w' = calls w @ [Remove p]"
  by (auto simp: os_remove_def split: sum.splits)

lemma remove_files_frame:
  "remote (remove_files files w) = remote w \<and>
   calls (remove_files files w) = calls w @ map Remove files"
proof (induction files arbitrary: w)
  case Nil
  then show ?case by simp
next
  case (Cons f files)
  obtain res w' where r: "os_remove f w = (res, w')" by (cases "os_remove f w") auto
  from os_remove_frame [OF r] Cons.IH [of w'] r show ?case
    by (cases res) auto
qed

lemma remove_patterns_frame:
  "remote (remove_patterns ps w) = remote w \<and>
   (\<exists>cs. calls (remove_patterns ps w) = calls w @ cs \<and> (\<forall>c \<in> set cs. local_call c))"
proof (induction ps arbitrary: w)
  case Nil
  then show ?case by simp
next
  case (Cons p ps)
  let ?w1 = "remove_files (fs_glob (fs w) p) (w\<lparr>calls := calls w @ [Glob p]\<rparr>)"
  from Cons.IH [of ?w1] obtain cs where
    "remote (remove_patterns ps ?w1) = remote ?w1"
    "calls (remove_patterns ps ?w1) = calls ?w1 @ cs" "\<forall>c \<in> set cs. local_call c"
    by blast
  then show ?case
    by (auto simp: glob_glob_def remove_files_frame local_call_def
        intro!: exI [of _ "Glob p # map Remove (fs_glob (fs w) p) @ cs"])
qed

lemma os_makedirs_frame:
  "os_makedirs name w = (res, w') \<Longrightarrow> remote w' = remote w \<and> calls w' = calls w @ [Makedirs name]"
  by (auto simp: os_makedirs_def split: prod.splits)

lemma cleanup_old_artifacts_frame:
  assumes "cleanup_old_artifacts n t w = (res, w')"
  shows "remote w' = remote w \<and> (\<exists>cs. calls w' = calls w @ cs \<and> (\<forall>c \<in> set cs. local_call c))"
proof -
  let ?d1 = "os_path_join ''uploaded_contracts'' t" and ?d2 = "os_path_join ''test_summaries'' t"
  obtain r1 w1 where m1: "os_makedirs ?d1 w = (r1, w1)" by (cases "os_makedirs ?d1 w") auto
  obtain r2 w2 where m2: "os_makedirs ?d2 w1 = (r2, w2)" by (cases "os_makedirs ?d2 w1") auto
  note f1 = os_makedirs_frame [OF m1] and f2 = os_makedirs_frame [OF m2]
  show ?thesis
  proof (cases r1)
    case (Inl e)
    with assms m1 f1 show ?thesis
      by (auto simp: cleanup_old_artifacts_def Let_def local_call_def)
  next
    case r1: (Inr u)
    show ?thesis
    proof (cases r2)
      case (Inl e)
      with assms m1 m2 r1 f1 f2 show ?thesis
        by (auto simp: cleanup_old_artifacts_def Let_def local_call_def)
    next
      case (Inr u')
      let ?ps = "[os_path_join ?d1 (n @ ''*''), os_path_join ?d2 (n @ ''*'')]"
      from remove_patterns_frame [of ?ps w2] obtain cs where
        "remote (remove_patterns ?ps w2) = remote w2"
        "calls (remove_patterns ?ps w2) = calls w2 @ cs" "\<forall>c \<in> set cs. local_call c"
        by blast
      with assms m1 m2 r1 Inr f1 f2 show ?thesis
        by (auto simp: cleanup_old_artifacts_def Let_def local_call_def
            intro!: exI [of _ "Makedirs ?d1 # Makedirs ?d2 # cs"])
    qed
  qed
qed

lemma get_test_results_Inr_iff:
  "get_test_results api name w = (Inr resp, w') \<longleftrightarrow>
     (\<exists>aggregated r'.
        fetch_from_remote_container api (str_lower (str_strip (path_stem name)) @ ''-report.md'')
          ''evm'' (remote w) = (Inr aggregated, r') \<and>
        resp = \<lparr>content = JObj [(''filename'', JStr name), (''aggregated_report'', aggregated)],
                headers = [(''Cache-Control'', ''no-store, no-cache, must-revalidate, max-age=0'')]\<rparr> \<and>
        w' = w\<lparr>remote := r',
               calls := calls w @
                 [FetchFromRemote (str_lower (str_strip (path_stem name)) @ ''-report.md'') ''evm'']\<rparr>)"
  by (auto simp: get_test_results_def Let_def call_fetch_def split: prod.splits sum.splits)

lemma get_non_evm_test_results_Inr_iff:
  "get_non_evm_test_results api name w = (Inr resp, w') \<longleftrightarrow>
     (\<exists>aggregated r'.
        fetch_from_remote_container api (str_lower (str_strip (path_stem name)) @ ''-report.md'')
          ''non-evm'' (remote w) = (Inr aggregated, r') \<and>
        resp = \<lparr>content = JObj [(''filename'', JStr name), (''aggregated_report'', aggregated)],
                headers = [(''Cache-Control'', ''no-store, no-cache, must-revalidate, max-age=0'')]\<rparr> \<and>
        w' = w\<lparr>remote := r',
               calls := calls w @
                 [FetchFromRemote (str_lower (str_strip (path_stem name)) @ ''-report.md'') ''non-evm'']\<rparr>)"
  by (auto simp: get_non_evm_test_results_def Let_def call_fetch_def split: prod.splits sum.splits)

lemma ext_example: "str_lower (snd (os_path_splitext ''MyToken.sol'')) = ''.sol''"
  by code_simp

lemma upload_evm_contract_steps:
  "upload_evm_contract api contract_file w = (Inr resp, w') \<longleftrightarrow>
      validate_extension (filename contract_file) ALLOWED_EVM_EXTENSIONS = Inr () \<and>
      (\<exists>w1 cs r1 r2 r3 logs report.
         cleanup_old_artifacts (str_lower (str_strip (path_stem (filename contract_file)))) ''evm'' w = (Inr (), w1) \<and>
         calls w1 = calls w @ cs \<and> list_all local_call cs \<and>
         upload_to_remote_container_memory api (body contract_file) (filename contract_file) ''evm''
           (remote w) = (Inr (), r1) \<and>
         trigger_docker_test api (filename contract_file) ''evm'' r1 = (Inr logs, r2) \<and>
         fetch_from_remote_container api (str_lower (str_strip (path_stem (filename contract_file))) @ ''-report.md'') ''evm'' r2 = (Inr report, r3) \<and>
         content resp = JObj
           [(''message'', JStr ''EVM contract processed''),
            (''filename'', JStr (filename contract_file)),
            (''docker_logs'', logs),
            (''aggregated_report'', report),
            (''details'', JObj [(''contract_type'', JStr ''evm''),
                               (''filename'', JStr (filename contract_file)),
                               (''status'', JStr ''processed'')])] \<and>
         headers resp = [] \<and>
         fs w' = fs w1 \<and> remote w' = r3 \<and>
         calls w' = calls w @ cs @
           [ReadFile (filename contract_file),
            UploadToRemote (body contract_file) (filename contract_file) ''evm'',
            TriggerDockerTest (filename contract_file) ''evm'',
            FetchFromRemote (str_lower (str_strip (path_stem (filename contract_file))) @ ''-report.md'') ''evm''])"
  (is "?L \<longleftrightarrow> ?V \<and> ?R")
proof
  assume ?L
  then obtain w1 r1 r2 r3 logs report where
    v: ?V and
    c: "cleanup_old_artifacts (str_lower (str_strip (path_stem (filename contract_file)))) ''evm'' w = (Inr (), w1)" and
    u: "upload_to_remote_container_memory api (body contract_file) (filename contract_file) ''evm''
           (remote w1) = (Inr (), r1)" and
    t: "trigger_docker_test api (filename contract_file) ''evm'' r1 = (Inr logs, r2)" and
    f: "fetch_from_remote_container api (str_lower (str_strip (path_stem (filename contract_file))) @ ''-report.md'') ''evm'' r2 = (Inr report, r3)" and
    r: "resp = \<lparr>content = JObj
                 [(''message'', JStr ''EVM contract processed''),
                  (''filename'', JStr (filename contract_file)),
                  (''docker_logs'', logs),
                  (''aggregated_report'', report),
                  (''details'', JObj [(''contract_type'', JStr ''evm''),
                      (''filename'', JStr (filename contract_file)),
                      (''status'', JStr ''processed'')])],
               headers = []\<rparr>" and
    w': "w' = w1\<lparr>remote := r3,
                calls := calls w1 @
                  [ReadFile (filename contract_file),
                   UploadToRemote (body contract_file) (filename contract_file) ''evm'',
                   TriggerDockerTest (filename contract_file) ''evm'',
                   FetchFromRemote (str_lower (str_strip (path_stem (filename contract_file))) @ ''-report.md'') ''evm'']\<rparr>"
    unfolding upload_evm_contract_Inr_iff by blast
  from cleanup_old_artifacts_frame [OF c] obtain cs where
    rem: "remote w1 = remote w" and cs: "calls w1 = calls w @ cs" "list_all local_call cs"
    by (auto simp: list_all_iff)
  have ?R
    apply (rule exI [of _ w1], rule exI [of _ cs], rule exI [of _ r1], rule exI [of _ r2],
        rule exI [of _ r3], rule exI [of _ logs], rule exI [of _ report])
    using c u t f r w' rem cs by simp
  with v show "?V \<and> ?R" ..
next
  assume "?V \<and> ?R"
  then obtain w1 cs r1 r2 r3 logs report where
    v: ?V and
    c: "cleanup_old_artifacts (str_lower (str_strip (path_stem (filename contract_file)))) ''evm'' w = (Inr (), w1)" and
    cs: "calls w1 = calls w @ cs" and
    u: "upload_to_remote_container_memory api (body contract_file) (filename contract_file) ''evm''
           (remote w) = (Inr (), r1)" and
    t: "trigger_docker_test api (filename contract_file) ''evm'' r1 = (Inr logs, r2)" and
    f: "fetch_from_remote_container api (str_lower (str_strip (path_stem (filename contract_file))) @ ''-report.md'') ''evm'' r2 = (Inr report, r3)" and
    r: "content resp = JObj
                 [(''message'', JStr ''EVM contract processed''),
                  (''filename'', JStr (filename contract_file)),
                  (''docker_logs'', logs),
                  (''aggregated_report'', report),
                  (''details'', JObj [(''contract_type'', JStr ''evm''),
                      (''filename'', JStr (filename contract_file)),
                      (''status'', JStr ''processed'')])]"
       "headers resp = []" and
    w': "fs w' = fs w1" "remote w' = r3"
        "calls w' = calls w @ cs @
                  [ReadFile (filename contract_file),
                   UploadToRemote (body contract_file) (filename contract_file) ''evm'',
                   TriggerDockerTest (filename contract_file) ''evm'',
                   FetchFromRemote (str_lower (str_strip (path_stem (filename contract_file))) @ ''-report.md'') ''evm'']"
    by blast
  from cleanup_old_artifacts_frame [OF c] have rem: "remote w1 = remote w" by simp
  show ?L
    unfolding upload_evm_contract_Inr_iff
    apply (rule conjI [OF v])
    apply (rule exI [of _ w1], rule exI [of _ r1], rule exI [of _ r2],
        rule exI [of _ r3], rule exI [of _ logs], rule exI [of _ report])
    using c u t f r w' rem cs by (cases resp) simp
qed

lemma upload_non_evm_contract_steps:
  "upload_non_evm_contract api contract_file w = (Inr resp, w') \<longleftrightarrow>
      validate_extension (filename contract_file) ALLOWED_NON_EVM_EXTENSIONS = Inr () \<and>
      (\<exists>w1 cs r1 r2 r3 logs report.
         cleanup_old_artifacts (str_lower (str_strip (path_stem (filename contract_file)))) ''non-evm'' w = (Inr (), w1) \<and>
         calls w1 = calls w @ cs \<and> list_all local_call cs \<and>
         upload_to_remote_container_memory api (body contract_file) (filename contract_file) ''non-evm''
           (remote w) = (Inr (), r1) \<and>
         trigger_docker_test api (filename contract_file) ''non-evm'' r1 = (Inr logs, r2) \<and>
         fetch_from_remote_container api (str_lower (str_strip (path_stem (filename contract_file))) @ ''-report.md'') ''non-evm'' r2 = (Inr report, r3) \<and>
         content resp = JObj
           [(''message'', JStr ''Non-EVM contract processed''),
            (''filename'', JStr (filename contract_file)),
            (''docker_logs'', logs),
            (''aggregated_report'', report),
            (''details'', JObj [(''contract_type'', JStr ''non-evm''),
                               (''filename'', JStr (filename contract_file)),
                               (''status'', JStr ''processed'')])] \<and>
         headers resp = [] \<and>
         fs w' = fs w1 \<and> remote w' = r3 \<and>
         calls w' = calls w @ cs @
           [ReadFile (filename contract_file),
            UploadToRemote (body contract_file) (filename contract_file) ''non-evm'',
            TriggerDockerTest (filename contract_file) ''non-evm'',
            FetchFromRemote (str_lower (str_strip (path_stem (filename contract_file))) @ ''-report.md'') ''non-evm''])"
  (is "?L \<longleftrightarrow> ?V \<and> ?R")
proof
  assume ?L
  then obtain w1 r1 r2 r3 logs report where
    v: ?V and
    c: "cleanup_old_artifacts (str_lower (str_strip (path_stem (filename contract_file)))) ''non-evm'' w = (Inr (), w1)" and
    u: "upload_to_remote_container_memory api (body contract_file) (filename contract_file) ''non-evm''
           (remote w1) = (Inr (), r1)" and
    t: "trigger_docker_test api (filename contract_file) ''non-evm'' r1 = (Inr logs, r2)" and
    f: "fetch_from_remote_container api (str_lower (str_strip (path_stem (filename contract_file))) @ ''-report.md'') ''non-evm'' r2 = (Inr report, r3)" and
    r: "resp = \<lparr>content = JObj
                 [(''message'', JStr ''Non-EVM contract processed''),
                  (''filename'', JStr (filename contract_file)),
                  (''docker_logs'', logs),
                  (''aggregated_report'', report),
                  (''details'', JObj [(''contract_type'', JStr ''non-evm''),
                      (''filename'', JStr (filename contract_file)),
                      (''status'', JStr ''processed'')])],
               headers = []\<rparr>" and
    w': "w' = w1\<lparr>remote := r3,
                calls := calls w1 @
                  [ReadFile (filename contract_file),
                   UploadToRemote (body contract_file) (filename contract_file) ''non-evm'',
                   TriggerDockerTest (filename contract_file) ''non-evm'',
                   FetchFromRemote (str_lower (str_strip (path_stem (filename contract_file))) @ ''-report.md'') ''non-evm'']\<rparr>"
    unfolding upload_non_evm_contract_Inr_iff by blast
  from cleanup_old_artifacts_frame [OF c] obtain cs where
    rem: "remote w1 = remote w" and cs: "calls w1 = calls w @ cs" "list_all local_call cs"
    by (auto simp: list_all_iff)
  have ?R
    apply (rule exI [of _ w1], rule exI [of _ cs], rule exI [of _ r1], rule exI [of _ r2],
        rule exI [of _ r3], rule exI [of _ logs], rule exI [of _ report])
    using c u t f r w' rem cs by simp
  with v show "?V \<and> ?R" ..
next
  assume "?V \<and> ?R"
  then obtain w1 cs r1 r2 r3 logs report where
    v: ?V and
    c: "cleanup_old_artifacts (str_lower (str_strip (path_stem (filename contract_file)))) ''non-evm'' w = (Inr (), w1)" and
    cs: "calls w1 = calls w @ cs" and
    u: "upload_to_remote_container_memory api (body contract_file) (filename contract_file) ''non-evm''
           (remote w) = (Inr (), r1)" and
    t: "trigger_docker_test api (filename contract_file) ''non-evm'' r1 = (Inr logs, r2)" and
    f: "fetch_from_remote_container api (str_lower (str_strip (path_stem (filename contract_file))) @ ''-report.md'') ''non-evm'' r2 = (Inr report, r3)" and
    r: "content resp = JObj
                 [(''message'', JStr ''Non-EVM contract processed''),
                  (''filename'', JStr (filename contract_file)),
                  (''docker_logs'', logs),
                  (''aggregated_report'', report),
                  (''details'', JObj [(''contract_type'', JStr ''non-evm''),
                      (''filename'', JStr (filename contract_file)),
                      (''status'', JStr ''processed'')])]"
       "headers resp = []" and
    w': "fs w' = fs w1" "remote w' = r3"
        "calls w' = calls w @ cs @
                  [ReadFile (filename contract_file),
                   UploadToRemote (body contract_file) (filename contract_file) ''non-evm'',
                   TriggerDockerTest (filename contract_file) ''non-evm'',
                   FetchFromRemote (str_lower (str_strip (path_stem (filename contract_file))) @ ''-report.md'') ''non-evm'']"
    by blast
  from cleanup_old_artifacts_frame [OF c] have rem: "remote w1 = remote w" by simp
  show ?L
    unfolding upload_non_evm_contract_Inr_iff
    apply (rule conjI [OF v])
    apply (rule exI [of _ w1], rule exI [of _ r1], rule exI [of _ r2],
        rule exI [of _ r3], rule exI [of _ logs], rule exI [of _ report])
    using c u t f r w' rem cs by (cases resp) simp
qed

lemma example_upload_evm:
  "upload_evm_contract example_api example_file example_world =
     (Inr \<lparr>content = JObj
             [(''message'', JStr ''EVM contract processed''),
              (''filename'', JStr ''MyToken.sol''),
              (''docker_logs'', JStr ''2 passed''),
              (''aggregated_report'', JStr ''mytoken-report.md''),
              (''details'', JObj [(''contract_type'', JStr ''evm''), (''filename'', JStr ''MyToken.sol''),
                  (''status'', JStr ''processed'')])],
           headers = []\<rparr>,
      \<lparr>fs = [(''uploaded_contracts'', Directory),
             (''uploaded_contracts/evm'', Directory),
             (''uploaded_contracts/evm/mytoken.lock'', RegularFile False),
             (''uploaded_contracts/evm/other.sol'', RegularFile True),
             (''test_summaries'', Directory),
             (''test_summaries/evm'', Directory)],
       remote = 3,
       calls = [Makedirs ''uploaded_contracts/evm'', Makedirs ''test_summaries/evm'',
                Glob ''uploaded_contracts/evm/mytoken*'',
                Remove ''uploaded_contracts/evm/mytoken.sol'',
                Remove ''uploaded_contracts/evm/mytoken.lock'',
                Glob ''test_summaries/evm/mytoken*'',
                ReadFile ''MyToken.sol'',
                UploadToRemote ''contract'' ''MyToken.sol'' ''evm'',
                TriggerDockerTest ''MyToken.sol'' ''evm'',
                FetchFromRemote ''mytoken-report.md'' ''evm'']\<rparr>)"
  by code_simp

lemma example_get_test_results:
  "get_test_results example_api ''MyToken.sol'' example_world =
     (Inr \<lparr>content = JObj [(''filename'', JStr ''MyToken.sol''),
                            (''aggregated_report'', JStr ''mytoken-report.md'')],
           headers = [(''Cache-Control'', ''no-store, no-cache, must-revalidate, max-age=0'')]\<rparr>,
      example_world\<lparr>remote := 1, calls := [FetchFromRemote ''mytoken-report.md'' ''evm'']\<rparr>)"
  by code_simp

section \<open>Properties of the cleanup\<close>

lemma str_rfind_last_occurrence:
  assumes "c \<notin> set ys"
  shows "str_rfind (xs @ c # ys) c = int (length xs)"
proof -
  have "takeWhile (\<lambda>x. x \<noteq> c) (rev ys @ c # rev xs) = rev ys"
    using assms by (subst takeWhile_append2) auto
  then show ?thesis
    by (simp add: str_rfind_def)
qed

lemma str_rfind_absent: "c \<notin> set s \<Longrightarrow> str_rfind s c = - 1"
  by (simp add: str_rfind_def)

lemma rstrip_id: "xs \<noteq> [] \<Longrightarrow> \<not> P (last xs) \<Longrightarrow> rev (dropWhile P (rev xs)) = xs"
  by (cases xs rule: rev_cases) auto

lemma os_path_split_entry:
  assumes "d \<noteq> []" "last d \<noteq> CHR ''/''" "CHR ''/'' \<notin> set n"
  shows "os_path_split (d @ CHR ''/'' # n) = (d, n)"
proof -
  have i: "str_rfind (d @ CHR ''/'' # n) CHR ''/'' = int (length d)"
    using str_rfind_last_occurrence [OF assms(3), of d] by simp
  have ne: "d @ ''/'' \<noteq> replicate (Suc (length d)) CHR ''/''"
  proof
    assume "d @ ''/'' = replicate (Suc (length d)) CHR ''/''"
    then have "set (d @ ''/'') \<subseteq> {CHR ''/''}"
      by (metis set_replicate_conv_if subset_insertI subset_refl empty_subsetI)
    with assms(1,2) show False
      by (metis Un_iff last_in_set set_append singletonD subsetD)
  qed
  have r: "rev (dropWhile (\<lambda>c. c = CHR ''/'') (rev (d @ ''/''))) = d"
    using rstrip_id [of d "\<lambda>c. c = CHR ''/''"] assms(1,2) by simp
  show ?thesis
    using ne r by (simp add: os_path_split_def i Let_def nat_add_distrib)
qed

lemma os_path_join_entry:
  assumes "d \<noteq> []" "last d \<noteq> CHR ''/''" "n \<noteq> []" "hd n \<noteq> CHR ''/''"
  shows "os_path_join d n = d @ CHR ''/'' # n"
  using assms by (simp add: os_path_join_def)

lemma os_path_join_empty:
  assumes "d \<noteq> []" "last d \<noteq> CHR ''/''"
  shows "os_path_join d [] = d @ ''/''"
  using assms by (simp add: os_path_join_def)

lemma entry_name_iff:
  assumes "d \<noteq> []" "last d \<noteq> CHR ''/''"
  shows "entry_name d p = Some n \<longleftrightarrow> p = d @ CHR ''/'' # n \<and> n \<noteq> [] \<and> CHR ''/'' \<notin> set n"
proof -
  have "take (Suc (length d)) p = d @ ''/'' \<and> drop (Suc (length d)) p = n \<longleftrightarrow> p = d @ CHR ''/'' # n"
    by (metis append.assoc append_Cons append_Nil append_eq_conv_conj append_take_drop_id length_append_singleton)
  then show ?thesis
    using assms by (auto simp: entry_name_def os_path_join_empty Let_def)
qed

lemma has_magic_append [simp]: "has_magic (xs @ ys) \<longleftrightarrow> has_magic xs \<or> has_magic ys"
  by (auto simp: has_magic_def)

lemma has_magic_Cons [simp]:
  "has_magic (x # xs) \<longleftrightarrow> x = CHR ''*'' \<or> x = CHR ''?'' \<or> x = CHR ''['' \<or> has_magic xs"
  by (auto simp: has_magic_def)

lemma has_magic_Nil [simp]: "\<not> has_magic []"
  by (simp add: has_magic_def)

lemma fnmatchcase_star: "fnmatchcase n ''*''"
  by (induction n) (simp_all add: fnmatchcase.simps)

lemma fnmatchcase_prefix:
  assumes "\<not> has_magic name"
  shows "fnmatchcase n (name @ ''*'') \<longleftrightarrow> prefix name n"
  using assms
proof (induction name arbitrary: n)
  case Nil
  then show ?case by (simp add: fnmatchcase_star)
next
  case (Cons c name)
  then show ?case
    by (cases n) (auto simp: fnmatchcase.simps)
qed

lemma entry_name_Some: "entry_name d p = Some n \<Longrightarrow> n \<noteq> [] \<and> CHR ''/'' \<notin> set n"
  by (auto simp: entry_name_def Let_def split: if_splits)

lemma set_map_filter: "set (List.map_filter f xs) = {y. \<exists>x \<in> set xs. f x = Some y}"
  by (auto simp: List.map_filter_def intro: rev_image_eqI)

lemma glob_listdir_names:
  "n \<in> set (glob_listdir F d b) \<Longrightarrow> n \<noteq> [] \<and> CHR ''/'' \<notin> set n"
  by (auto simp: glob_listdir_def set_map_filter split: if_splits dest: entry_name_Some)

lemma set_glob_listdir:
  assumes "d \<noteq> []" "last d \<noteq> CHR ''/''" "os_path_isdir F d"
  shows "set (glob_listdir F d False)
         = {n. n \<noteq> [] \<and> CHR ''/'' \<notin> set n \<and> map_of F (d @ CHR ''/'' # n) \<noteq> None}"
proof -
  have "(\<exists>x \<in> set F. (case x of (p, k) \<Rightarrow> entry_name d p) = Some n)
        \<longleftrightarrow> n \<noteq> [] \<and> CHR ''/'' \<notin> set n \<and> map_of F (d @ CHR ''/'' # n) \<noteq> None" for n
  proof
    assume "\<exists>x \<in> set F. (case x of (p, k) \<Rightarrow> entry_name d p) = Some n"
    then obtain p k where "(p, k) \<in> set F" "entry_name d p = Some n" by auto
    then show "n \<noteq> [] \<and> CHR ''/'' \<notin> set n \<and> map_of F (d @ CHR ''/'' # n) \<noteq> None"
      using entry_name_iff [OF assms(1,2), of p n]
      by (metis fst_conv image_eqI map_of_eq_None_iff)
  next
    assume a: "n \<noteq> [] \<and> CHR ''/'' \<notin> set n \<and> map_of F (d @ CHR ''/'' # n) \<noteq> None"
    then obtain k where "(d @ CHR ''/'' # n, k) \<in> set F"
      by (meson map_of_SomeD not_Some_eq)
    moreover have "entry_name d (d @ CHR ''/'' # n) = Some n"
      using a entry_name_iff [OF assms(1,2), of "d @ CHR ''/'' # n" n] by simp
    ultimately show "\<exists>x \<in> set F. (case x of (p, k) \<Rightarrow> entry_name d p) = Some n"
      by force
  qed
  then show ?thesis
    using assms(3) by (simp add: glob_listdir_def set_map_filter)
qed

lemma glob1_names:
  "n \<in> set (glob1 F d pat b) \<Longrightarrow> n \<noteq> [] \<and> hd n \<noteq> CHR ''/''"
  using glob_listdir_names [of n F d b]
  by (cases n) (auto simp: glob1_def Let_def split: if_splits)

lemma fs_glob_entries:
  assumes "d \<noteq> []" "last d \<noteq> CHR ''/''" "\<not> has_magic d" "CHR ''/'' \<notin> set name"
  shows "fs_glob F (os_path_join d (name @ ''*''))
         = map (\<lambda>n. d @ CHR ''/'' # n) (glob1 F d (name @ ''*'') False)"
proof -
  let ?p = "d @ CHR ''/'' # name @ ''*''"
  have hd: "hd (name @ ''*'') \<noteq> CHR ''/''"
    using assms(4) by (cases name) auto
  have j: "os_path_join d (name @ ''*'') = ?p"
    using os_path_join_entry [OF assms(1,2) _ hd] by simp
  have s: "os_path_split ?p = (d, name @ ''*'')"
    using os_path_split_entry [OF assms(1,2), of "name @ ''*''"] assms(4) by simp
  have m: "map (os_path_join d) ns = map (\<lambda>n. d @ CHR ''/'' # n) ns"
    if "\<forall>n \<in> set ns. n \<noteq> [] \<and> hd n \<noteq> CHR ''/''" for ns
    using that os_path_join_entry [OF assms(1,2)] by (induction ns) auto
  have n: "\<forall>n \<in> set (glob1 F d (name @ ''*'') False). n \<noteq> [] \<and> hd n \<noteq> CHR ''/''"
    using glob1_names by blast
  have "iglob F ?p False = map (os_path_join d) (glob1 F d (name @ ''*'') False)"
    by (subst iglob.simps) (simp only: s fst_conv snd_conv, simp add: assms(1,3))
  then show ?thesis
    unfolding fs_glob_def j m [OF n] .
qed

lemma set_glob1_prefix:
  assumes "d \<noteq> []" "last d \<noteq> CHR ''/''" "os_path_isdir F d" "\<not> has_magic name"
  shows "set (glob1 F d (name @ ''*'') False)
         = {n. n \<noteq> [] \<and> CHR ''/'' \<notin> set n \<and> map_of F (d @ CHR ''/'' # n) \<noteq> None
               \<and> prefix name n \<and> \<not> (name = [] \<and> ishidden n)}"
proof -
  have h: "ishidden (name @ ''*'') \<or> \<not> ishidden n \<longleftrightarrow> \<not> (name = [] \<and> ishidden n)"
    if "prefix name n" for n
    using that by (cases name; cases n) (auto simp: ishidden_def)
  show ?thesis
    using h by (auto simp: glob1_def Let_def set_glob_listdir [OF assms(1-3)]
        fnmatchcase_prefix [OF assms(4)])
qed

lemma map_of_remove_key:
  "map_of (filter (\<lambda>(q, n). q \<noteq> p) F) q = (if q = p then None else map_of F q)"
  by (induction F) auto

lemma os_remove_fs:
  "map_of (fs (snd (os_remove p w))) q =
     (if q = p \<and> map_of (fs w) p = Some (RegularFile True) then None else map_of (fs w) q)"
  by (auto simp: os_remove_def fs_remove_def map_of_remove_key split: option.splits node.splits)

lemma remove_files_Cons: "remove_files (f # files) w = remove_files files (snd (os_remove f w))"
  by (cases "os_remove f w") (auto split: sum.splits)

lemma remove_files_fs:
  "map_of (fs (remove_files files w)) q =
     (if q \<in> set files \<and> map_of (fs w) q = Some (RegularFile True) then None
      else map_of (fs w) q)"
proof (induction files arbitrary: w)
  case Nil
  then show ?case by simp
next
  case (Cons f files)
  show ?case
    unfolding remove_files_Cons Cons.IH
    by (auto simp: os_remove_fs)
qed

lemma os_path_split_plain: "CHR ''/'' \<notin> set p \<Longrightarrow> os_path_split p = ([], p)"
  by (simp add: os_path_split_def str_rfind_absent)

lemma makedirs_split_plain: "CHR ''/'' \<notin> set p \<Longrightarrow> makedirs_split p = ([], p)"
  by (simp add: makedirs_split_def os_path_split_plain)

lemma makedirs_split_entry:
  assumes "d \<noteq> []" "last d \<noteq> CHR ''/''" "CHR ''/'' \<notin> set n" "n \<noteq> []"
  shows "makedirs_split (d @ CHR ''/'' # n) = (d, n)"
  using assms by (simp add: makedirs_split_def os_path_split_entry [OF assms(1-3)])

lemma last_no_slash: "d \<noteq> [] \<Longrightarrow> CHR ''/'' \<notin> set d \<Longrightarrow> last d \<noteq> CHR ''/''"
  using last_in_set by fastforce

text \<open>\<^verbatim>\<open>os.makedirs\<close> on a directory \<open>par/t\<close> of two plain components.\<close>

lemma fs_makedirs_top:
  assumes "par \<noteq> []" "CHR ''/'' \<notin> set par"
  shows "fs_makedirs par F = makedirs_mkdir par F"
  using assms by (subst fs_makedirs.simps) (simp add: makedirs_split_plain)

lemma makedirs_mkdir_top_absent:
  assumes "par \<noteq> []" "CHR ''/'' \<notin> set par" "map_of F par = None"
  shows "makedirs_mkdir par F = (Inr (), F @ [(par, Directory)])"
  using assms by (simp add: makedirs_mkdir_def fs_mkdir_def os_path_split_plain)

lemma fs_makedirs_two:
  assumes "par \<noteq> []" "CHR ''/'' \<notin> set par" "t \<noteq> []" "CHR ''/'' \<notin> set t" "t \<noteq> ''.''"
  shows "fs_makedirs (par @ CHR ''/'' # t) F =
           makedirs_mkdir (par @ CHR ''/'' # t)
             (if map_of F par = None then F @ [(par, Directory)] else F)"
proof -
  note sp = makedirs_split_entry [OF assms(1) last_no_slash [OF assms(1,2)] assms(4,3)]
  show ?thesis
    using assms
    by (subst fs_makedirs.simps)
       (simp add: sp os_path_exists_def fs_makedirs_top makedirs_mkdir_top_absent)
qed

lemma map_of_append_first:
  "map_of (F @ G) q = (case map_of F q of None \<Rightarrow> map_of G q | Some n \<Rightarrow> Some n)"
  by (induction F) auto

lemma map_of_snoc:
  "map_of (F @ [(p, n)]) q = (if map_of F q = None \<and> q = p then Some n else map_of F q)"
  by (induction F) auto

lemma top_neq_entry: "CHR ''/'' \<notin> set par \<Longrightarrow> par \<noteq> d @ CHR ''/'' # t"
  by auto

lemma fs_makedirs_two_result:
  assumes "par \<noteq> []" "CHR ''/'' \<notin> set par" "t \<noteq> []" "CHR ''/'' \<notin> set t" "t \<noteq> ''.''"
    and "fs_makedirs (par @ CHR ''/'' # t) F = (res, F')"
  shows "(res = Inr () \<longleftrightarrow> \<not> blocked F par t)"
    and "(\<exists>k. res = Inl (OSError k (par @ CHR ''/'' # t))) \<or> res = Inr ()"
    and "res = Inr () \<Longrightarrow> map_of F' q =
           (if map_of F q = None \<and> (q = par \<or> q = par @ CHR ''/'' # t) then Some Directory
            else map_of F q)"
proof -
  let ?d = "par @ CHR ''/'' # t"
  let ?F1 = "if map_of F par = None then F @ [(par, Directory)] else F"
  have r: "makedirs_mkdir ?d ?F1 = (res, F')"
    using fs_makedirs_two [OF assms(1-5)] assms(6) by simp
  have sp: "os_path_split ?d = (par, t)"
    using os_path_split_entry [OF assms(1) last_no_slash [OF assms(1,2)] assms(4)] .
  have ne: "par \<noteq> ?d" using assms(2) by auto
  have d1: "map_of ?F1 ?d = map_of F ?d"
    using ne by (auto simp: map_of_snoc simp del: map_of_append)
  have t1: "map_of ?F1 par = (if map_of F par = None then Some Directory else map_of F par)"
    by (auto simp: map_of_snoc simp del: map_of_append)
  show "(res = Inr () \<longleftrightarrow> \<not> blocked F par t)"
    using r assms(1) unfolding makedirs_mkdir_def fs_mkdir_def blocked_def Let_def sp fst_conv
      os_path_isdir_def d1 t1
    by (auto split: option.splits node.splits if_splits)
  show "(\<exists>k. res = Inl (OSError k ?d)) \<or> res = Inr ()"
    using r by (auto simp: makedirs_mkdir_def split: sum.splits if_splits)
  show "map_of F' q =
           (if map_of F q = None \<and> (q = par \<or> q = par @ CHR ''/'' # t) then Some Directory
            else map_of F q)" if "res = Inr ()"
    using r that assms(1) ne unfolding makedirs_mkdir_def fs_mkdir_def Let_def sp fst_conv
      os_path_isdir_def d1 t1
    by (auto simp: map_of_append_first simp del: map_of_append
        split: option.splits node.splits if_splits)
qed

lemma remove_files_remote_calls:
  "remote (remove_files files w) = remote w"
  "calls (remove_files files w) = calls w @ map Remove files"
  using remove_files_frame [of files w] by simp_all

lemma glob_files:
  assumes "d \<noteq> []" "last d \<noteq> CHR ''/''" "\<not> has_magic d" "os_path_isdir F d"
    "CHR ''/'' \<notin> set name" "\<not> has_magic name"
  shows "set (fs_glob F (os_path_join d (name @ ''*''))) =
           {d @ CHR ''/'' # n | n. n \<noteq> [] \<and> CHR ''/'' \<notin> set n \<and> map_of F (d @ CHR ''/'' # n) \<noteq> None
               \<and> prefix name n \<and> \<not> (name = [] \<and> ishidden n)}"
  unfolding fs_glob_entries [OF assms(1,2,3,5)] set_map set_glob1_prefix [OF assms(1,2,4,6)]
  by auto

lemma distinct_glob_listdir: "distinct (glob_listdir F d b)"
  by (simp add: glob_listdir_def)

lemma distinct_fs_glob:
  assumes "d \<noteq> []" "last d \<noteq> CHR ''/''" "\<not> has_magic d" "CHR ''/'' \<notin> set name"
  shows "distinct (fs_glob F (os_path_join d (name @ ''*'')))"
  unfolding fs_glob_entries [OF assms]
  by (simp add: distinct_map glob1_def Let_def distinct_glob_listdir inj_on_def)

lemma old_artifact_iff:
  assumes "plain_component t"
  shows "old_artifact name t p \<longleftrightarrow>
    (\<exists>n. n \<noteq> [] \<and> CHR ''/'' \<notin> set n \<and> prefix name n \<and> \<not> (name = [] \<and> ishidden n)
        \<and> (p = ''uploaded_contracts'' @ CHR ''/'' # t @ CHR ''/'' # n
           \<or> p = ''test_summaries'' @ CHR ''/'' # t @ CHR ''/'' # n))"
proof -
  have t: "t \<noteq> []" "hd t \<noteq> CHR ''/''" "last t \<noteq> CHR ''/''"
    using assms last_no_slash [of t] by (cases t; auto simp: plain_component_def)+
  have j1: "os_path_join ''uploaded_contracts'' t = ''uploaded_contracts'' @ CHR ''/'' # t"
    and j2: "os_path_join ''test_summaries'' t = ''test_summaries'' @ CHR ''/'' # t"
    using t by (simp_all add: os_path_join_def)
  have e1: "entry_name (''uploaded_contracts'' @ CHR ''/'' # t) p = Some n \<longleftrightarrow>
      p = (''uploaded_contracts'' @ CHR ''/'' # t) @ CHR ''/'' # n \<and> n \<noteq> [] \<and> CHR ''/'' \<notin> set n" for n
    using t by (intro entry_name_iff) simp_all
  have e2: "entry_name (''test_summaries'' @ CHR ''/'' # t) p = Some n \<longleftrightarrow>
      p = (''test_summaries'' @ CHR ''/'' # t) @ CHR ''/'' # n \<and> n \<noteq> [] \<and> CHR ''/'' \<notin> set n" for n
    using t by (intro entry_name_iff) simp_all
  let ?m = "\<lambda>n. prefix name n \<and> \<not> (name = [] \<and> ishidden n)"
  let ?d1 = "''uploaded_contracts'' @ CHR ''/'' # t" and ?d2 = "''test_summaries'' @ CHR ''/'' # t"
  have c: "(case entry_name d p of None \<Rightarrow> False | Some n \<Rightarrow> ?m n)
        \<longleftrightarrow> (\<exists>n. entry_name d p = Some n \<and> ?m n)" for d
    by (cases "entry_name d p") simp_all
  have "old_artifact name t p \<longleftrightarrow>
      (\<exists>n. entry_name ?d1 p = Some n \<and> ?m n) \<or> (\<exists>n. entry_name ?d2 p = Some n \<and> ?m n)"
    unfolding old_artifact_def j1 j2 by (simp only: bex_simps c insert_iff empty_iff) blast
  also have "\<dots> \<longleftrightarrow>
      (\<exists>n. (p = ?d1 @ CHR ''/'' # n \<and> n \<noteq> [] \<and> CHR ''/'' \<notin> set n) \<and> ?m n)
      \<or> (\<exists>n. (p = ?d2 @ CHR ''/'' # n \<and> n \<noteq> [] \<and> CHR ''/'' \<notin> set n) \<and> ?m n)"
    by (simp only: e1 e2)
  also have "\<dots> \<longleftrightarrow>
    (\<exists>n. n \<noteq> [] \<and> CHR ''/'' \<notin> set n \<and> prefix name n \<and> \<not> (name = [] \<and> ishidden n)
        \<and> (p = ''uploaded_contracts'' @ CHR ''/'' # t @ CHR ''/'' # n
           \<or> p = ''test_summaries'' @ CHR ''/'' # t @ CHR ''/'' # n))"
    unfolding append_assoc append_Cons by blast
  finally show ?thesis .
qed

lemma first_component_eq:
  assumes "CHR ''/'' \<notin> set a" "CHR ''/'' \<notin> set b" "a @ CHR ''/'' # x = b @ CHR ''/'' # y"
  shows "a = b \<and> x = y"
proof -
  have "takeWhile (\<lambda>c. c \<noteq> CHR ''/'') (a @ CHR ''/'' # x) = a"
    using assms(1) by (subst takeWhile_append2) auto
  moreover have "takeWhile (\<lambda>c. c \<noteq> CHR ''/'') (b @ CHR ''/'' # y) = b"
    using assms(2) by (subst takeWhile_append2) auto
  ultimately have "a = b" using assms(3) by simp
  with assms(3) show ?thesis by simp
qed

text \<open>The file system after the two loops of the cleanup, for two directories
  \<open>p1/t\<close> and \<open>p2/t\<close> that exist.\<close>

lemma cleanup_loops_fs:
  fixes w2 :: "'r world"
  assumes p: "p1 \<noteq> []" "CHR ''/'' \<notin> set p1" "\<not> has_magic p1"
             "p2 \<noteq> []" "CHR ''/'' \<notin> set p2" "\<not> has_magic p2" "p1 \<noteq> p2"
    and t: "plain_component t"
    and n: "CHR ''/'' \<notin> set name" "\<not> has_magic name"
    and d: "os_path_isdir (fs w2) (p1 @ CHR ''/'' # t)" "os_path_isdir (fs w2) (p2 @ CHR ''/'' # t)"
  shows "map_of (fs (remove_patterns
            [os_path_join (p1 @ CHR ''/'' # t) (name @ ''*''),
             os_path_join (p2 @ CHR ''/'' # t) (name @ ''*'')] w2)) q =
         (if (\<exists>n. n \<noteq> [] \<and> CHR ''/'' \<notin> set n \<and> prefix name n \<and> \<not> (name = [] \<and> ishidden n)
                \<and> (q = p1 @ CHR ''/'' # t @ CHR ''/'' # n \<or> q = p2 @ CHR ''/'' # t @ CHR ''/'' # n))
             \<and> map_of (fs w2) q = Some (RegularFile True)
          then None else map_of (fs w2) q)"
proof -
  let ?d1 = "p1 @ CHR ''/'' # t" and ?d2 = "p2 @ CHR ''/'' # t"
  let ?P1 = "os_path_join ?d1 (name @ ''*'')" and ?P2 = "os_path_join ?d2 (name @ ''*'')"
  let ?m = "\<lambda>n. n \<noteq> [] \<and> CHR ''/'' \<notin> set n \<and> prefix name n \<and> \<not> (name = [] \<and> ishidden n)"
  from t have t': "t \<noteq> []" "CHR ''/'' \<notin> set t" "\<not> has_magic t"
    by (simp_all add: plain_component_def)
  have l: "last ?d1 \<noteq> CHR ''/''" "last ?d2 \<noteq> CHR ''/''"
    using t' last_no_slash [of t] by simp_all
  have nm: "\<not> has_magic ?d1" "\<not> has_magic ?d2"
    using p t' by simp_all
  define wa where "wa = w2\<lparr>calls := calls w2 @ [Glob ?P1]\<rparr>"
  define w3 where "w3 = remove_files (fs_glob (fs w2) ?P1) wa"
  define wb where "wb = w3\<lparr>calls := calls w3 @ [Glob ?P2]\<rparr>"
  define w4 where "w4 = remove_files (fs_glob (fs w3) ?P2) wb"
  have run: "remove_patterns [?P1, ?P2] w2 = w4"
    by (simp add: glob_glob_def w4_def wb_def w3_def wa_def)
  have s1: "set (fs_glob (fs w2) ?P1) =
      {?d1 @ CHR ''/'' # n | n. ?m n \<and> map_of (fs w2) (?d1 @ CHR ''/'' # n) \<noteq> None}"
    using glob_files [OF _ l(1) nm(1) d(1) n] by auto
  have f3: "map_of (fs w3) q =
      (if q \<in> set (fs_glob (fs w2) ?P1) \<and> map_of (fs w2) q = Some (RegularFile True) then None
       else map_of (fs w2) q)" for q
    unfolding w3_def remove_files_fs by (simp add: wa_def)
  have d3: "os_path_isdir (fs w3) ?d2"
    using d(2) by (simp add: os_path_isdir_def f3)
  have s2: "set (fs_glob (fs w3) ?P2) =
      {?d2 @ CHR ''/'' # n | n. ?m n \<and> map_of (fs w3) (?d2 @ CHR ''/'' # n) \<noteq> None}"
    using glob_files [OF _ l(2) nm(2) d3 n] by auto
  have f4: "map_of (fs w4) q =
      (if q \<in> set (fs_glob (fs w3) ?P2) \<and> map_of (fs w3) q = Some (RegularFile True) then None
       else map_of (fs w3) q)" for q
    unfolding w4_def remove_files_fs by (simp add: wb_def)
  have ne: "?d1 @ CHR ''/'' # a \<noteq> ?d2 @ CHR ''/'' # b" for a b
    using first_component_eq [OF p(2) p(5), of "t @ CHR ''/'' # a" "t @ CHR ''/'' # b"] p(7)
    by auto
  have in1: "q \<in> set (fs_glob (fs w2) ?P1) \<longleftrightarrow>
      (\<exists>n. ?m n \<and> q = ?d1 @ CHR ''/'' # n) \<and> map_of (fs w2) q \<noteq> None"
    unfolding s1 by auto
  have in2: "q \<in> set (fs_glob (fs w3) ?P2) \<longleftrightarrow>
      (\<exists>n. ?m n \<and> q = ?d2 @ CHR ''/'' # n) \<and> map_of (fs w3) q \<noteq> None"
    unfolding s2 by auto
  have x: "(\<exists>n. ?m n \<and> q = ?d1 @ CHR ''/'' # n) \<Longrightarrow> \<not> (\<exists>n. ?m n \<and> q = ?d2 @ CHR ''/'' # n)"
    using ne by auto
  have "map_of (fs w4) q =
      (if ((\<exists>n. ?m n \<and> q = ?d1 @ CHR ''/'' # n) \<or> (\<exists>n. ?m n \<and> q = ?d2 @ CHR ''/'' # n))
          \<and> map_of (fs w2) q = Some (RegularFile True)
       then None else map_of (fs w2) q)"
    unfolding f4 in2 f3 in1 using x by auto
  also have "((\<exists>n. ?m n \<and> q = ?d1 @ CHR ''/'' # n) \<or> (\<exists>n. ?m n \<and> q = ?d2 @ CHR ''/'' # n))
      \<longleftrightarrow> (\<exists>n. n \<noteq> [] \<and> CHR ''/'' \<notin> set n \<and> prefix name n \<and> \<not> (name = [] \<and> ishidden n)
                \<and> (q = p1 @ CHR ''/'' # t @ CHR ''/'' # n \<or> q = p2 @ CHR ''/'' # t @ CHR ''/'' # n))"
    unfolding append_assoc append_Cons by blast
  finally show ?thesis
    unfolding run .
qed

lemma cleanup_loops_calls:
  fixes w2 :: "'r world"
  assumes p: "p1 \<noteq> []" "CHR ''/'' \<notin> set p1" "\<not> has_magic p1"
             "p2 \<noteq> []" "CHR ''/'' \<notin> set p2" "\<not> has_magic p2" "p1 \<noteq> p2"
    and t: "plain_component t"
    and n: "CHR ''/'' \<notin> set name" "\<not> has_magic name"
    and d: "os_path_isdir (fs w2) (p1 @ CHR ''/'' # t)" "os_path_isdir (fs w2) (p2 @ CHR ''/'' # t)"
  shows "\<exists>files1 files2.
           calls (remove_patterns
            [os_path_join (p1 @ CHR ''/'' # t) (name @ ''*''),
             os_path_join (p2 @ CHR ''/'' # t) (name @ ''*'')] w2)
           = calls w2 @ [Glob (p1 @ CHR ''/'' # t @ CHR ''/'' # name @ ''*'')] @ map Remove files1
               @ [Glob (p2 @ CHR ''/'' # t @ CHR ''/'' # name @ ''*'')] @ map Remove files2
         \<and> distinct files1 \<and> distinct files2
         \<and> set files1 = {p1 @ CHR ''/'' # t @ CHR ''/'' # n | n.
               n \<noteq> [] \<and> CHR ''/'' \<notin> set n \<and> prefix name n \<and> \<not> (name = [] \<and> ishidden n)
               \<and> map_of (fs w2) (p1 @ CHR ''/'' # t @ CHR ''/'' # n) \<noteq> None}
         \<and> set files2 = {p2 @ CHR ''/'' # t @ CHR ''/'' # n | n.
               n \<noteq> [] \<and> CHR ''/'' \<notin> set n \<and> prefix name n \<and> \<not> (name = [] \<and> ishidden n)
               \<and> map_of (fs w2) (p2 @ CHR ''/'' # t @ CHR ''/'' # n) \<noteq> None}"
proof -
  let ?d1 = "p1 @ CHR ''/'' # t" and ?d2 = "p2 @ CHR ''/'' # t"
  let ?P1 = "os_path_join ?d1 (name @ ''*'')" and ?P2 = "os_path_join ?d2 (name @ ''*'')"
  let ?m = "\<lambda>n. n \<noteq> [] \<and> CHR ''/'' \<notin> set n \<and> prefix name n \<and> \<not> (name = [] \<and> ishidden n)"
  from t have t': "t \<noteq> []" "CHR ''/'' \<notin> set t" "\<not> has_magic t"
    by (simp_all add: plain_component_def)
  have l: "last ?d1 \<noteq> CHR ''/''" "last ?d2 \<noteq> CHR ''/''"
    using t' last_no_slash [of t] by simp_all
  have nm: "\<not> has_magic ?d1" "\<not> has_magic ?d2"
    using p t' by simp_all
  have hd: "hd (name @ ''*'') \<noteq> CHR ''/''"
    using n(1) by (cases name) auto
  have j: "?P1 = p1 @ CHR ''/'' # t @ CHR ''/'' # name @ ''*''"
          "?P2 = p2 @ CHR ''/'' # t @ CHR ''/'' # name @ ''*''"
    using os_path_join_entry [OF _ l(1) _ hd] os_path_join_entry [OF _ l(2) _ hd] by simp_all
  define wa where "wa = w2\<lparr>calls := calls w2 @ [Glob ?P1]\<rparr>"
  define w3 where "w3 = remove_files (fs_glob (fs w2) ?P1) wa"
  define wb where "wb = w3\<lparr>calls := calls w3 @ [Glob ?P2]\<rparr>"
  define w4 where "w4 = remove_files (fs_glob (fs w3) ?P2) wb"
  have run: "remove_patterns [?P1, ?P2] w2 = w4"
    by (simp add: glob_glob_def w4_def wb_def w3_def wa_def)
  have s1: "set (fs_glob (fs w2) ?P1) =
      {?d1 @ CHR ''/'' # n | n. ?m n \<and> map_of (fs w2) (?d1 @ CHR ''/'' # n) \<noteq> None}"
    using glob_files [OF _ l(1) nm(1) d(1) n] by auto
  have f3: "map_of (fs w3) q =
      (if q \<in> set (fs_glob (fs w2) ?P1) \<and> map_of (fs w2) q = Some (RegularFile True) then None
       else map_of (fs w2) q)" for q
    unfolding w3_def remove_files_fs by (simp add: wa_def)
  have d3: "os_path_isdir (fs w3) ?d2"
    using d(2) by (simp add: os_path_isdir_def f3)
  have s2: "set (fs_glob (fs w3) ?P2) =
      {?d2 @ CHR ''/'' # n | n. ?m n \<and> map_of (fs w3) (?d2 @ CHR ''/'' # n) \<noteq> None}"
    using glob_files [OF _ l(2) nm(2) d3 n] by auto
  have ne: "p1 @ CHR ''/'' # t @ CHR ''/'' # a \<noteq> p2 @ CHR ''/'' # t @ CHR ''/'' # b" for a b
    using first_component_eq [OF p(2) p(5), of "t @ CHR ''/'' # a" "t @ CHR ''/'' # b"] p(7)
    by blast
  have "?d2 @ CHR ''/'' # b \<notin> set (fs_glob (fs w2) ?P1)" for b
  proof
    assume "?d2 @ CHR ''/'' # b \<in> set (fs_glob (fs w2) ?P1)"
    then obtain n where "?d2 @ CHR ''/'' # b = ?d1 @ CHR ''/'' # n"
      unfolding s1 by blast
    then have "p1 @ CHR ''/'' # t @ CHR ''/'' # n = p2 @ CHR ''/'' # t @ CHR ''/'' # b"
      by simp
    with ne show False by blast
  qed
  then have same: "map_of (fs w3) (?d2 @ CHR ''/'' # b) = map_of (fs w2) (?d2 @ CHR ''/'' # b)" for b
    unfolding f3 by simp
  have c: "calls w4 = calls w2 @ [Glob ?P1] @ map Remove (fs_glob (fs w2) ?P1)
             @ [Glob ?P2] @ map Remove (fs_glob (fs w3) ?P2)"
    by (simp add: w4_def wb_def w3_def wa_def remove_files_remote_calls)
  show ?thesis
    unfolding run
    apply (rule exI [of _ "fs_glob (fs w2) ?P1"], rule exI [of _ "fs_glob (fs w3) ?P2"])
    apply (intro conjI)
    subgoal using c unfolding j by simp
    subgoal using distinct_fs_glob [OF _ l(1) nm(1) n(1)] by simp
    subgoal using distinct_fs_glob [OF _ l(2) nm(2) n(1)] by simp
    subgoal unfolding s1 by simp
    subgoal unfolding s2 same by simp
    done
qed

lemma blocked_cong:
  assumes "map_of F' (par @ CHR ''/'' # t) = map_of F (par @ CHR ''/'' # t)"
    and "map_of F' par = map_of F par"
  shows "blocked F' par t = blocked F par t"
  unfolding blocked_def assms ..

lemma not_blocked_dir:
  assumes "\<not> blocked F par t"
  shows "map_of F (par @ CHR ''/'' # t) = None \<or> map_of F (par @ CHR ''/'' # t) = Some Directory"
  using assms by (auto simp: blocked_def split: option.splits node.splits)

lemma created_or_removed:
  assumes "m2 = (if C then Some Directory else m)" "C \<longrightarrow> m = None"
  shows "(if T \<and> m2 = Some (RegularFile True) then None else m2) =
         (if T \<and> m = Some (RegularFile True) then None
          else if C then Some Directory else m)"
proof (cases C)
  case True
  with assms show ?thesis by simp
next
  case False
  with assms show ?thesis by simp
qed

lemma cleanup_generic:
  fixes w :: "'r world"
  assumes p: "p1 \<noteq> []" "CHR ''/'' \<notin> set p1" "\<not> has_magic p1"
             "p2 \<noteq> []" "CHR ''/'' \<notin> set p2" "\<not> has_magic p2" "p1 \<noteq> p2"
    and t: "plain_component t"
    and n: "CHR ''/'' \<notin> set name" "\<not> has_magic name"
    and run: "(case os_makedirs (p1 @ CHR ''/'' # t) w of
                 (Inl e, w1) \<Rightarrow> (Inl e, w1)
               | (Inr u, w1) \<Rightarrow>
                   (case os_makedirs (p2 @ CHR ''/'' # t) w1 of
                      (Inl e, w2) \<Rightarrow> (Inl e, w2)
                    | (Inr u, w2) \<Rightarrow>
                        (Inr (), remove_patterns
                           [os_path_join (p1 @ CHR ''/'' # t) (name @ ''*''),
                            os_path_join (p2 @ CHR ''/'' # t) (name @ ''*'')] w2))) = (res, w')"
  shows "res = Inr () \<longleftrightarrow> \<not> blocked (fs w) p1 t \<and> \<not> blocked (fs w) p2 t"
    and "res = Inr () \<Longrightarrow> map_of (fs w') q =
          (if (\<exists>n. n \<noteq> [] \<and> CHR ''/'' \<notin> set n \<and> prefix name n \<and> \<not> (name = [] \<and> ishidden n)
                \<and> (q = p1 @ CHR ''/'' # t @ CHR ''/'' # n \<or> q = p2 @ CHR ''/'' # t @ CHR ''/'' # n))
             \<and> map_of (fs w) q = Some (RegularFile True)
           then None
           else if map_of (fs w) q = None
                 \<and> (q = p1 \<or> q = p1 @ CHR ''/'' # t \<or> q = p2 \<or> q = p2 @ CHR ''/'' # t)
           then Some Directory
           else map_of (fs w) q)"
    and "res = Inr () \<Longrightarrow> \<exists>files1 files2.
           calls w' = calls w @ [Makedirs (p1 @ CHR ''/'' # t), Makedirs (p2 @ CHR ''/'' # t),
                Glob (p1 @ CHR ''/'' # t @ CHR ''/'' # name @ ''*'')] @ map Remove files1
               @ [Glob (p2 @ CHR ''/'' # t @ CHR ''/'' # name @ ''*'')] @ map Remove files2
         \<and> distinct files1 \<and> distinct files2
         \<and> set files1 = {p1 @ CHR ''/'' # t @ CHR ''/'' # n | n.
               n \<noteq> [] \<and> CHR ''/'' \<notin> set n \<and> prefix name n \<and> \<not> (name = [] \<and> ishidden n)
               \<and> map_of (fs w) (p1 @ CHR ''/'' # t @ CHR ''/'' # n) \<noteq> None}
         \<and> set files2 = {p2 @ CHR ''/'' # t @ CHR ''/'' # n | n.
               n \<noteq> [] \<and> CHR ''/'' \<notin> set n \<and> prefix name n \<and> \<not> (name = [] \<and> ishidden n)
               \<and> map_of (fs w) (p2 @ CHR ''/'' # t @ CHR ''/'' # n) \<noteq> None}"
proof -
  let ?d1 = "p1 @ CHR ''/'' # t" and ?d2 = "p2 @ CHR ''/'' # t"
  let ?ps = "[os_path_join ?d1 (name @ ''*''), os_path_join ?d2 (name @ ''*'')]"
  from t have t': "t \<noteq> []" "CHR ''/'' \<notin> set t" "t \<noteq> ''.''"
    by (simp_all add: plain_component_def)
  obtain r1 F1 where m1: "fs_makedirs ?d1 (fs w) = (r1, F1)"
    by (cases "fs_makedirs ?d1 (fs w)") auto
  obtain r2 F2 where m2: "fs_makedirs ?d2 F1 = (r2, F2)"
    by (cases "fs_makedirs ?d2 F1") auto
  define w1 where "w1 = w\<lparr>fs := F1, calls := calls w @ [Makedirs ?d1]\<rparr>"
  define w2 where "w2 = w1\<lparr>fs := F2, calls := calls w1 @ [Makedirs ?d2]\<rparr>"
  have o1: "os_makedirs ?d1 w = (r1, w1)"
    by (simp add: os_makedirs_def m1 w1_def)
  have o2: "os_makedirs ?d2 w1 = (r2, w2)"
    by (simp add: os_makedirs_def m2 w1_def w2_def)
  note a1 = fs_makedirs_two_result [OF p(1,2) t' m1]
  note a2 = fs_makedirs_two_result [OF p(4,5) t' m2]
  have ne: "p2 \<noteq> ?d1" "?d2 \<noteq> p1" "?d2 \<noteq> ?d1" "?d1 \<noteq> p1" "?d2 \<noteq> p2"
    using p(2,5,7) first_component_eq [OF p(5) p(2), of t t] by auto
  have b2: "blocked F1 p2 t = blocked (fs w) p2 t" if "r1 = Inr ()"
    using ne p(7) by (intro blocked_cong) (simp_all add: a1(3) [OF that])
  have res: "res = (case r1 of Inl e \<Rightarrow> Inl e | Inr u \<Rightarrow> (case r2 of Inl e \<Rightarrow> Inl e | Inr u \<Rightarrow> Inr ()))"
    using run unfolding o1 by (auto simp: o2 split: sum.splits)
  show A: "res = Inr () \<longleftrightarrow> \<not> blocked (fs w) p1 t \<and> \<not> blocked (fs w) p2 t"
    unfolding res using a1(1,2) a2(1,2) b2 by (auto split: sum.splits)
  {
    assume ok: "res = Inr ()"
    then have r: "r1 = Inr ()" "r2 = Inr ()"
      unfolding res by (auto split: sum.splits)
    have w': "w' = remove_patterns ?ps w2"
      using run unfolding o1 by (simp add: r o2)
    have F1: "map_of F1 q = (if map_of (fs w) q = None \<and> (q = p1 \<or> q = ?d1) then Some Directory
        else map_of (fs w) q)" for q
      using a1(3) [OF r(1)] .
    have F2: "map_of F2 q = (if map_of F1 q = None \<and> (q = p2 \<or> q = ?d2) then Some Directory
        else map_of F1 q)" for q
      using a2(3) [OF r(2)] .
    have F2': "map_of F2 q =
        (if map_of (fs w) q = None \<and> (q = p1 \<or> q = ?d1 \<or> q = p2 \<or> q = ?d2) then Some Directory
         else map_of (fs w) q)" for q
      unfolding F2 F1 by auto
    have fs2: "fs w2 = F2"
      by (simp add: w2_def)
    have nb: "\<not> blocked (fs w) p1 t" "\<not> blocked (fs w) p2 t"
      using A ok by simp_all
    have d: "os_path_isdir (fs w2) ?d1" "os_path_isdir (fs w2) ?d2"
      using not_blocked_dir [OF nb(1)] not_blocked_dir [OF nb(2)]
      by (auto simp: os_path_isdir_def w2_def F2')
    have e: "((if map_of (fs w) q = None \<and> (q = p1 \<or> q = ?d1 \<or> q = p2 \<or> q = ?d2)
               then Some Directory else map_of (fs w) q) = Some (RegularFile True))
             \<longleftrightarrow> map_of (fs w) q = Some (RegularFile True)" for q
      by simp
    have ent: "map_of (fs w2) (pp @ CHR ''/'' # t @ CHR ''/'' # x) = map_of (fs w) (pp @ CHR ''/'' # t @ CHR ''/'' # x)"
      if "pp = p1 \<or> pp = p2" for pp x
    proof -
      have "pp @ CHR ''/'' # t @ CHR ''/'' # x \<noteq> p1" "pp @ CHR ''/'' # t @ CHR ''/'' # x \<noteq> p2"
        using p(2,5) by auto
      moreover have "pp @ CHR ''/'' # t @ CHR ''/'' # x \<noteq> ?d1" "pp @ CHR ''/'' # t @ CHR ''/'' # x \<noteq> ?d2"
        using that first_component_eq [OF p(2) p(2), of "t @ CHR ''/'' # x" t]
          first_component_eq [OF p(2) p(5), of "t @ CHR ''/'' # x" t]
          first_component_eq [OF p(5) p(2), of "t @ CHR ''/'' # x" t]
          first_component_eq [OF p(5) p(5), of "t @ CHR ''/'' # x" t]
        by auto
      ultimately show ?thesis
        by (simp add: w2_def F2')
    qed
    show "map_of (fs w') q =
          (if (\<exists>n. n \<noteq> [] \<and> CHR ''/'' \<notin> set n \<and> prefix name n \<and> \<not> (name = [] \<and> ishidden n)
                \<and> (q = p1 @ CHR ''/'' # t @ CHR ''/'' # n \<or> q = p2 @ CHR ''/'' # t @ CHR ''/'' # n))
             \<and> map_of (fs w) q = Some (RegularFile True)
           then None
           else if map_of (fs w) q = None
                 \<and> (q = p1 \<or> q = p1 @ CHR ''/'' # t \<or> q = p2 \<or> q = p2 @ CHR ''/'' # t)
           then Some Directory
           else map_of (fs w) q)"
    proof -
      let ?T = "\<exists>n. n \<noteq> [] \<and> CHR ''/'' \<notin> set n \<and> prefix name n \<and> \<not> (name = [] \<and> ishidden n)
                \<and> (q = p1 @ CHR ''/'' # t @ CHR ''/'' # n \<or> q = p2 @ CHR ''/'' # t @ CHR ''/'' # n)"
      let ?C = "map_of (fs w) q = None
                 \<and> (q = p1 \<or> q = p1 @ CHR ''/'' # t \<or> q = p2 \<or> q = p2 @ CHR ''/'' # t)"
      have L: "map_of (fs w') q =
          (if ?T \<and> map_of F2 q = Some (RegularFile True) then None else map_of F2 q)"
        using cleanup_loops_fs [OF p t n d, of q] unfolding w' fs2 .
      have R: "map_of F2 q = (if ?C then Some Directory else map_of (fs w) q)"
        using F2' [of q] by simp
      have C: "?C \<longrightarrow> map_of (fs w) q = None"
        by simp
      show ?thesis
        proof -
        have X: "(if ?T \<and> map_of F2 q = Some (RegularFile True) then None else map_of F2 q) =
          (if ?T \<and> map_of (fs w) q = Some (RegularFile True) then None
           else if ?C then Some Directory else map_of (fs w) q)"
          using R C by (rule created_or_removed)
        show ?thesis by (rule trans [OF L X])
      qed
    qed
    from cleanup_loops_calls [OF p t n d] obtain files1 files2 where
      c: "calls (remove_patterns ?ps w2)
           = calls w2 @ [Glob (p1 @ CHR ''/'' # t @ CHR ''/'' # name @ ''*'')] @ map Remove files1
               @ [Glob (p2 @ CHR ''/'' # t @ CHR ''/'' # name @ ''*'')] @ map Remove files2"
      and di: "distinct files1" "distinct files2"
      and s1: "set files1 = {p1 @ CHR ''/'' # t @ CHR ''/'' # n | n.
               n \<noteq> [] \<and> CHR ''/'' \<notin> set n \<and> prefix name n \<and> \<not> (name = [] \<and> ishidden n)
               \<and> map_of (fs w2) (p1 @ CHR ''/'' # t @ CHR ''/'' # n) \<noteq> None}"
      and s2: "set files2 = {p2 @ CHR ''/'' # t @ CHR ''/'' # n | n.
               n \<noteq> [] \<and> CHR ''/'' \<notin> set n \<and> prefix name n \<and> \<not> (name = [] \<and> ishidden n)
               \<and> map_of (fs w2) (p2 @ CHR ''/'' # t @ CHR ''/'' # n) \<noteq> None}"
      by (elim exE conjE) (rule that, assumption+)
    show "\<exists>files1 files2.
           calls w' = calls w @ [Makedirs (p1 @ CHR ''/'' # t), Makedirs (p2 @ CHR ''/'' # t),
                Glob (p1 @ CHR ''/'' # t @ CHR ''/'' # name @ ''*'')] @ map Remove files1
               @ [Glob (p2 @ CHR ''/'' # t @ CHR ''/'' # name @ ''*'')] @ map Remove files2
         \<and> distinct files1 \<and> distinct files2
         \<and> set files1 = {p1 @ CHR ''/'' # t @ CHR ''/'' # n | n.
               n \<noteq> [] \<and> CHR ''/'' \<notin> set n \<and> prefix name n \<and> \<not> (name = [] \<and> ishidden n)
               \<and> map_of (fs w) (p1 @ CHR ''/'' # t @ CHR ''/'' # n) \<noteq> None}
         \<and> set files2 = {p2 @ CHR ''/'' # t @ CHR ''/'' # n | n.
               n \<noteq> [] \<and> CHR ''/'' \<notin> set n \<and> prefix name n \<and> \<not> (name = [] \<and> ishidden n)
               \<and> map_of (fs w) (p2 @ CHR ''/'' # t @ CHR ''/'' # n) \<noteq> None}"
    proof (intro exI conjI)
      show "calls w' = calls w @ [Makedirs (p1 @ CHR ''/'' # t), Makedirs (p2 @ CHR ''/'' # t),
                Glob (p1 @ CHR ''/'' # t @ CHR ''/'' # name @ ''*'')] @ map Remove files1
               @ [Glob (p2 @ CHR ''/'' # t @ CHR ''/'' # name @ ''*'')] @ map Remove files2"
        unfolding w' c by (simp add: w2_def w1_def)
      show "distinct files1" "distinct files2" by (rule di)+
      show "set files1 = {p1 @ CHR ''/'' # t @ CHR ''/'' # n | n.
               n \<noteq> [] \<and> CHR ''/'' \<notin> set n \<and> prefix name n \<and> \<not> (name = [] \<and> ishidden n)
               \<and> map_of (fs w) (p1 @ CHR ''/'' # t @ CHR ''/'' # n) \<noteq> None}"
        unfolding s1 ent [OF disjI1 [OF refl]] ..
      show "set files2 = {p2 @ CHR ''/'' # t @ CHR ''/'' # n | n.
               n \<noteq> [] \<and> CHR ''/'' \<notin> set n \<and> prefix name n \<and> \<not> (name = [] \<and> ishidden n)
               \<and> map_of (fs w) (p2 @ CHR ''/'' # t @ CHR ''/'' # n) \<noteq> None}"
        unfolding s2 ent [OF disjI2 [OF refl]] ..
    qed
  }
qed

lemma cleanup_old_artifacts_unfold:
  assumes "plain_component t"
  shows "cleanup_old_artifacts name t w =
     (case os_makedirs (''uploaded_contracts'' @ CHR ''/'' # t) w of
        (Inl e, w1) \<Rightarrow> (Inl e, w1)
      | (Inr u, w1) \<Rightarrow>
          (case os_makedirs (''test_summaries'' @ CHR ''/'' # t) w1 of
             (Inl e, w2) \<Rightarrow> (Inl e, w2)
           | (Inr u, w2) \<Rightarrow>
               (Inr (), remove_patterns
                  [os_path_join (''uploaded_contracts'' @ CHR ''/'' # t) (name @ ''*''),
                   os_path_join (''test_summaries'' @ CHR ''/'' # t) (name @ ''*'')] w2)))"
proof -
  have t: "t \<noteq> []" "hd t \<noteq> CHR ''/''"
    using assms by (cases t; auto simp: plain_component_def)+
  have j1: "os_path_join ''uploaded_contracts'' t = ''uploaded_contracts'' @ CHR ''/'' # t"
    and j2: "os_path_join ''test_summaries'' t = ''test_summaries'' @ CHR ''/'' # t"
    using t by (simp_all add: os_path_join_def)
  show ?thesis
    unfolding cleanup_old_artifacts_def Let_def j1 j2 ..
qed

lemma parents_plain:
  "''uploaded_contracts'' \<noteq> []" "CHR ''/'' \<notin> set ''uploaded_contracts''"
  "\<not> has_magic ''uploaded_contracts''"
  "''test_summaries'' \<noteq> []" "CHR ''/'' \<notin> set ''test_summaries''"
  "\<not> has_magic ''test_summaries''" "''uploaded_contracts'' \<noteq> ''test_summaries''"
  by simp_all

lemmas cleanup_old_artifacts_result =
  cleanup_generic [OF parents_plain _ _ _ trans [OF cleanup_old_artifacts_unfold [symmetric]]]

lemma evm_types_plain:
  "contract_type = ''evm'' \<or> contract_type = ''non-evm'' \<Longrightarrow> plain_component contract_type"
  by (auto simp: plain_component_def)

lemma cleanup_old_artifacts_error_or_ok:
  "cleanup_old_artifacts n t w = (res, w') \<Longrightarrow> res = Inr () \<or> (\<exists>k d. res = Inl (OSError k d))"
  using cleanup_old_artifacts_error [of n t w _ w'] by (cases res) auto

lemma union_of_images:
  "{f1 n | n. m n \<and> M (f1 n) \<noteq> None} \<union> {f2 n | n. m n \<and> M (f2 n) \<noteq> None}
   = {p. (\<exists>n. m n \<and> (p = f1 n \<or> p = f2 n)) \<and> M p \<noteq> None}"
  by blast

lemma artifacts_union:
  assumes t: "plain_component t"
  shows "{''uploaded_contracts'' @ CHR ''/'' # t @ CHR ''/'' # n | n.
               n \<noteq> [] \<and> CHR ''/'' \<notin> set n \<and> prefix name n \<and> \<not> (name = [] \<and> ishidden n)
               \<and> M (''uploaded_contracts'' @ CHR ''/'' # t @ CHR ''/'' # n) \<noteq> None}
       \<union> {''test_summaries'' @ CHR ''/'' # t @ CHR ''/'' # n | n.
               n \<noteq> [] \<and> CHR ''/'' \<notin> set n \<and> prefix name n \<and> \<not> (name = [] \<and> ishidden n)
               \<and> M (''test_summaries'' @ CHR ''/'' # t @ CHR ''/'' # n) \<noteq> None}
       = {p. old_artifact name t p \<and> M p \<noteq> None}"
proof -
  let ?m = "\<lambda>n. n \<noteq> [] \<and> CHR ''/'' \<notin> set n \<and> prefix name n \<and> \<not> (name = [] \<and> ishidden n)"
  have c: "(A \<and> B \<and> C \<and> D \<and> E) = ((A \<and> B \<and> C \<and> D) \<and> E)" for A B C D E
    by blast
  show ?thesis
    unfolding old_artifact_iff [OF t] c
    using union_of_images [of "\<lambda>n. ''uploaded_contracts'' @ CHR ''/'' # t @ CHR ''/'' # n" ?m M
        "\<lambda>n. ''test_summaries'' @ CHR ''/'' # t @ CHR ''/'' # n"]
    .
qed

lemma cleanup_old_artifacts_effect:
  assumes "contract_type = ''evm'' \<or> contract_type = ''non-evm''"
    and "CHR ''/'' \<notin> set contract_name" and "\<not> has_magic contract_name"
    and "cleanup_old_artifacts contract_name contract_type w = (res, w')"
  shows "(res = Inr () \<longleftrightarrow>
            \<not> blocked (fs w) ''uploaded_contracts'' contract_type
            \<and> \<not> blocked (fs w) ''test_summaries'' contract_type)
       \<and> (res = Inr () \<or> (\<exists>k d. res = Inl (OSError k d)))
       \<and> remote w' = remote w
       \<and> (res = Inr () \<longrightarrow>
            (\<forall>p. map_of (fs w') p =
               (if old_artifact contract_name contract_type p
                   \<and> map_of (fs w) p = Some (RegularFile True)
                then None
                else if map_of (fs w) p = None
                        \<and> (p = ''uploaded_contracts''
                           \<or> p = ''uploaded_contracts/'' @ contract_type
                           \<or> p = ''test_summaries''
                           \<or> p = ''test_summaries/'' @ contract_type)
                then Some Directory
                else map_of (fs w) p))
            \<and> (\<exists>files1 files2.
                 calls w' = calls w @
                   [Makedirs (''uploaded_contracts/'' @ contract_type),
                    Makedirs (''test_summaries/'' @ contract_type),
                    Glob (''uploaded_contracts/'' @ contract_type @ ''/'' @ contract_name @ ''*'')]
                   @ map Remove files1
                   @ [Glob (''test_summaries/'' @ contract_type @ ''/'' @ contract_name @ ''*'')]
                   @ map Remove files2
                 \<and> set files1 \<union> set files2
                     = {p. old_artifact contract_name contract_type p \<and> map_of (fs w) p \<noteq> None}))"
proof -
  note t = evm_types_plain [OF assms(1)]
  note R = cleanup_old_artifacts_result [OF t assms(2,3) t assms(4)]
  have 1: "res = Inr () \<longleftrightarrow>
            \<not> blocked (fs w) ''uploaded_contracts'' contract_type
            \<and> \<not> blocked (fs w) ''test_summaries'' contract_type"
    by (rule R(1))
  have 2: "res = Inr () \<or> (\<exists>k d. res = Inl (OSError k d))"
    by (rule cleanup_old_artifacts_error_or_ok [OF assms(4)])
  have 3: "remote w' = remote w"
    using cleanup_old_artifacts_frame [OF assms(4)] by simp
  have 4: "map_of (fs w') p =
               (if old_artifact contract_name contract_type p
                   \<and> map_of (fs w) p = Some (RegularFile True)
                then None
                else if map_of (fs w) p = None
                        \<and> (p = ''uploaded_contracts''
                           \<or> p = ''uploaded_contracts'' @ CHR ''/'' # contract_type
                           \<or> p = ''test_summaries''
                           \<or> p = ''test_summaries'' @ CHR ''/'' # contract_type)
                then Some Directory
                else map_of (fs w) p)" if "res = Inr ()" for p
    unfolding old_artifact_iff [OF t] by (rule R(2) [OF that])
  have 5: "\<exists>files1 files2.
                 calls w' = calls w @
                   [Makedirs (''uploaded_contracts'' @ CHR ''/'' # contract_type),
                    Makedirs (''test_summaries'' @ CHR ''/'' # contract_type),
                    Glob (''uploaded_contracts'' @ CHR ''/'' # contract_type @ CHR ''/'' # contract_name @ ''*'')]
                   @ map Remove files1
                   @ [Glob (''test_summaries'' @ CHR ''/'' # contract_type @ CHR ''/'' # contract_name @ ''*'')]
                   @ map Remove files2
                 \<and> set files1 \<union> set files2
                     = {p. old_artifact contract_name contract_type p \<and> map_of (fs w) p \<noteq> None}"
    if "res = Inr ()"
  proof -
    from R(3) [OF that] obtain files1 files2 where
      c: "calls w' = calls w @
                   [Makedirs (''uploaded_contracts'' @ CHR ''/'' # contract_type),
                    Makedirs (''test_summaries'' @ CHR ''/'' # contract_type),
                    Glob (''uploaded_contracts'' @ CHR ''/'' # contract_type @ CHR ''/'' # contract_name @ ''*'')]
                   @ map Remove files1
                   @ [Glob (''test_summaries'' @ CHR ''/'' # contract_type @ CHR ''/'' # contract_name @ ''*'')]
                   @ map Remove files2"
      and s1: "set files1 = {''uploaded_contracts'' @ CHR ''/'' # contract_type @ CHR ''/'' # n | n.
               n \<noteq> [] \<and> CHR ''/'' \<notin> set n \<and> prefix contract_name n
               \<and> \<not> (contract_name = [] \<and> ishidden n)
               \<and> map_of (fs w) (''uploaded_contracts'' @ CHR ''/'' # contract_type @ CHR ''/'' # n) \<noteq> None}"
      and s2: "set files2 = {''test_summaries'' @ CHR ''/'' # contract_type @ CHR ''/'' # n | n.
               n \<noteq> [] \<and> CHR ''/'' \<notin> set n \<and> prefix contract_name n
               \<and> \<not> (contract_name = [] \<and> ishidden n)
               \<and> map_of (fs w) (''test_summaries'' @ CHR ''/'' # contract_type @ CHR ''/'' # n) \<noteq> None}"
      by (elim exE conjE) (rule that, assumption+)
    have "set files1 \<union> set files2
        = {p. old_artifact contract_name contract_type p \<and> map_of (fs w) p \<noteq> None}"
      unfolding s1 s2 by (rule artifacts_union [OF t])
    with c show ?thesis by (intro exI conjI)
  qed
  have c4: "res = Inr () \<longrightarrow> (\<forall>p. map_of (fs w') p =
               (if old_artifact contract_name contract_type p
                   \<and> map_of (fs w) p = Some (RegularFile True)
                then None
                else if map_of (fs w) p = None
                        \<and> (p = ''uploaded_contracts''
                           \<or> p = ''uploaded_contracts/'' @ contract_type
                           \<or> p = ''test_summaries''
                           \<or> p = ''test_summaries/'' @ contract_type)
                then Some Directory
                else map_of (fs w) p))"
    using 4 by (simp only: append_Cons append_Nil) blast
  have c5: "res = Inr () \<longrightarrow> (\<exists>files1 files2.
                 calls w' = calls w @
                   [Makedirs (''uploaded_contracts/'' @ contract_type),
                    Makedirs (''test_summaries/'' @ contract_type),
                    Glob (''uploaded_contracts/'' @ contract_type @ ''/'' @ contract_name @ ''*'')]
                   @ map Remove files1
                   @ [Glob (''test_summaries/'' @ contract_type @ ''/'' @ contract_name @ ''*'')]
                   @ map Remove files2
                 \<and> set files1 \<union> set files2
                     = {p. old_artifact contract_name contract_type p \<and> map_of (fs w) p \<noteq> None})"
    using 5 by (simp only: append_Cons append_Nil) blast
  from 1 2 3 c4 c5 show ?thesis
    by (intro conjI) blast+
qed

lemma mytoken_base: "str_lower (str_strip (path_stem ''MyToken.sol'')) = ''mytoken''"
  by code_simp

lemma mytoken_valid: "validate_extension ''MyToken.sol'' ALLOWED_EVM_EXTENSIONS = Inr ()"
  by code_simp

lemma prefix_conv_append: "prefix xs ys \<longleftrightarrow> (\<exists>s. ys = xs @ s)"
  by (auto simp: prefix_def)

lemma mytoken_artifact:
  "old_artifact ''mytoken'' ''evm'' p \<longleftrightarrow>
     (\<exists>s. CHR ''/'' \<notin> set s
        \<and> (p = ''uploaded_contracts/evm/mytoken'' @ s \<or> p = ''test_summaries/evm/mytoken'' @ s))"
proof -
  have t: "plain_component ''evm''"
    by (simp add: plain_component_def)
  have "old_artifact ''mytoken'' ''evm'' p \<longleftrightarrow>
    (\<exists>n. n \<noteq> [] \<and> CHR ''/'' \<notin> set n \<and> prefix ''mytoken'' n
        \<and> (p = ''uploaded_contracts/evm/'' @ n \<or> p = ''test_summaries/evm/'' @ n))"
    unfolding old_artifact_iff [OF t] by simp
  also have "\<dots> \<longleftrightarrow> (\<exists>n s. n = ''mytoken'' @ s \<and> CHR ''/'' \<notin> set s
        \<and> (p = ''uploaded_contracts/evm/'' @ n \<or> p = ''test_summaries/evm/'' @ n))"
    unfolding prefix_conv_append by auto
  also have "\<dots> \<longleftrightarrow> (\<exists>s. CHR ''/'' \<notin> set s
        \<and> (p = ''uploaded_contracts/evm/mytoken'' @ s \<or> p = ''test_summaries/evm/mytoken'' @ s))"
    by auto
  finally show ?thesis .
qed

section \<open>Properties of the report name\<close>

subsection \<open>Letter case\<close>

lemma isspace_lower_char [simp]: "isspace (lower_char c) = isspace c"
proof (cases "(65 \<le> (of_char c :: nat) \<and> (of_char c :: nat) \<le> 90) \<or>
    (192 \<le> (of_char c :: nat) \<and> (of_char c :: nat) \<le> 222 \<and> (of_char c :: nat) \<noteq> 215)")
  case True
  then have eq: "lower_char c = char_of ((of_char c :: nat) + 32)"
    by (simp add: lower_char_def Let_def)
  have "(of_char (char_of ((of_char c :: nat) + 32)) :: nat) = of_char c + 32"
    using True by (auto simp: of_char_of)
  then show ?thesis
    using True unfolding eq by (auto simp: isspace_def Let_def)
next
  case False
  then show ?thesis by (auto simp: lower_char_def Let_def)
qed



lemma str_split_nonempty [simp]: "str_split c s \<noteq> []"
  by (induction s) auto







subsection \<open>White space around the name\<close>



lemma str_strip_ends:
  assumes "str_strip name \<noteq> []"
  shows "\<not> isspace (hd (str_strip name))" "\<not> isspace (last (str_strip name))"
proof -
  let ?h = "dropWhile isspace name"
  let ?g = "rev (dropWhile isspace (rev ?h))"
  have g: "str_strip name = ?g" by (simp add: str_strip_def)
  from assms have ne: "dropWhile isspace (rev ?h) \<noteq> []" by (simp add: g)
  then show "\<not> isspace (last (str_strip name))"
    unfolding g by (simp add: last_rev hd_dropWhile)
  from ne have h: "?h \<noteq> []" by (auto simp del: dropWhile_eq_Nil_conv)
  have "prefix ?g ?h" by (rule rstrip_prefix)
  with assms have "hd ?g = hd ?h"
    unfolding g by (metis hd_append2 prefix_def)
  with h show "\<not> isspace (hd (str_strip name))"
    unfolding g by (simp add: hd_dropWhile)
qed




lemma isspace_dot_slash [simp]: "\<not> isspace CHR ''.''" "\<not> isspace CHR ''/''"
  by (simp_all add: isspace_def)












subsection \<open>The fetch of the report in the handlers\<close>









section \<open>The claims\<close>

subsection \<open>C1: the extension decides whether an upload is accepted\<close>

text \<open>C1. Let \<open>ext\<close> be the extension of the uploaded file's name: what
  \<^verbatim>\<open>os.path.splitext\<close> splits off, in lower case. The upload-evm handler accepts the
  file exactly when \<open>ext\<close> is \<^verbatim>\<open>.sol\<close> or \<^verbatim>\<open>.txt\<close>, and the upload-non-evm handler
  exactly when it is \<^verbatim>\<open>.rs\<close> or \<^verbatim>\<open>.wasm\<close>: the validator returns normally in
  exactly these cases, and for every other name the handler raises the
  \<^verbatim>\<open>HTTPException\<close> with status 400 and detail \<^verbatim>\<open>File type <ext> not allowed.\<close>
  A handler raises no \<^verbatim>\<open>HTTPException\<close> at all for an accepted name.\<close>

theorem extension_decides_acceptance:
  assumes "ext = str_lower (snd (os_path_splitext (filename contract_file)))"
  shows "(validate_extension (filename contract_file) ALLOWED_EVM_EXTENSIONS = Inr ()
            \<longleftrightarrow> ext \<in> {''.sol'', ''.txt''})
       \<and> (fst (upload_evm_contract api contract_file w)
              = Inl (HTTPException 400 (''File type '' @ ext @ '' not allowed.''))
            \<longleftrightarrow> ext \<notin> {''.sol'', ''.txt''})
       \<and> ((\<exists>code detail. fst (upload_evm_contract api contract_file w)
              = Inl (HTTPException code detail))
            \<longleftrightarrow> ext \<notin> {''.sol'', ''.txt''})
       \<and> (validate_extension (filename contract_file) ALLOWED_NON_EVM_EXTENSIONS = Inr ()
            \<longleftrightarrow> ext \<in> {''.rs'', ''.wasm''})
       \<and> (fst (upload_non_evm_contract api contract_file w)
              = Inl (HTTPException 400 (''File type '' @ ext @ '' not allowed.''))
            \<longleftrightarrow> ext \<notin> {''.rs'', ''.wasm''})
       \<and> ((\<exists>code detail. fst (upload_non_evm_contract api contract_file w)
              = Inl (HTTPException code detail))
            \<longleftrightarrow> ext \<notin> {''.rs'', ''.wasm''})"
proof -
  have evm: "ALLOWED_EVM_EXTENSIONS = {''.sol'', ''.txt''}"
    by (simp add: ALLOWED_EVM_EXTENSIONS_def)
  have non: "ALLOWED_NON_EVM_EXTENSIONS = {''.rs'', ''.wasm''}"
    by (simp add: ALLOWED_NON_EVM_EXTENSIONS_def)
  have 1: "validate_extension (filename contract_file) ALLOWED_EVM_EXTENSIONS = Inr ()
            \<longleftrightarrow> ext \<in> {''.sol'', ''.txt''}"
    unfolding assms evm [symmetric] by (rule validate_extension_Inr)
  have 2: "fst (upload_evm_contract api contract_file w)
              = Inl (HTTPException 400 (''File type '' @ ext @ '' not allowed.''))
            \<longleftrightarrow> ext \<notin> {''.sol'', ''.txt''}"
    unfolding assms evm [symmetric]
    using upload_evm_contract_rejected [of contract_file api w]
      upload_evm_contract_accepted [of contract_file api w]
    by auto
  have 3: "(\<exists>code detail. fst (upload_evm_contract api contract_file w)
              = Inl (HTTPException code detail))
            \<longleftrightarrow> ext \<notin> {''.sol'', ''.txt''}"
    unfolding assms evm [symmetric]
    using upload_evm_contract_rejected [of contract_file api w]
      upload_evm_contract_accepted [of contract_file api w]
    by auto
  have 4: "validate_extension (filename contract_file) ALLOWED_NON_EVM_EXTENSIONS = Inr ()
            \<longleftrightarrow> ext \<in> {''.rs'', ''.wasm''}"
    unfolding assms non [symmetric] by (rule validate_extension_Inr)
  have 5: "fst (upload_non_evm_contract api contract_file w)
              = Inl (HTTPException 400 (''File type '' @ ext @ '' not allowed.''))
            \<longleftrightarrow> ext \<notin> {''.rs'', ''.wasm''}"
    unfolding assms non [symmetric]
    using upload_non_evm_contract_rejected [of contract_file api w]
      upload_non_evm_contract_accepted [of contract_file api w]
    by auto
  have 6: "(\<exists>code detail. fst (upload_non_evm_contract api contract_file w)
              = Inl (HTTPException code detail))
            \<longleftrightarrow> ext \<notin> {''.rs'', ''.wasm''}"
    unfolding assms non [symmetric]
    using upload_non_evm_contract_rejected [of contract_file api w]
      upload_non_evm_contract_accepted [of contract_file api w]
    by auto
  from 1 2 3 4 5 6 show ?thesis by blast
qed

text \<open>The theorem at the upload \<^verbatim>\<open>MyToken.sol\<close>: accepted by the EVM validator, refused
  by the non-EVM handler.\<close>

theorem extension_decides_acceptance_witness:
  "validate_extension ''MyToken.sol'' ALLOWED_EVM_EXTENSIONS = Inr ()
   \<and> fst (upload_non_evm_contract example_api example_file example_world)
       = Inl (HTTPException 400 ''File type .sol not allowed.'')"
proof -
  have "''.sol'' = str_lower (snd (os_path_splitext (filename example_file)))"
    by (simp add: example_file_def ext_example)
  from extension_decides_acceptance [OF this, of example_api example_world]
  show ?thesis
    by (simp add: example_file_def)
qed

subsection \<open>C2: the name of the report\<close>




subsection \<open>C3: the steps of an upload, in order\<close>

text \<open>C3. An upload handler returns a response exactly when the name passes the
  validator and no later step raises. Then it has done these steps in this order: the
  cleanup of old artifacts for the base name (the stem of the file name, stripped and in
  lower case), which makes calls to the local file system only; reading the bytes of the
  file; the upload of these bytes to the remote runner; the trigger of the docker test;
  the fetch of the report \<^verbatim>\<open><base>-report.md\<close>. The JSON body has exactly the keys
  \<^verbatim>\<open>message\<close>, \<^verbatim>\<open>filename\<close>, \<^verbatim>\<open>docker_logs\<close>, \<^verbatim>\<open>aggregated_report\<close> and
  \<^verbatim>\<open>details\<close>, where \<^verbatim>\<open>docker_logs\<close> is what the trigger returned,
  \<^verbatim>\<open>aggregated_report\<close> is what the fetch returned, and \<^verbatim>\<open>filename\<close> is the name as
  uploaded.\<close>

theorem upload_steps_in_order:
  assumes "base_name = str_lower (str_strip (path_stem (filename contract_file)))"
  shows "(upload_evm_contract api contract_file w = (Inr resp, w') \<longleftrightarrow>
      validate_extension (filename contract_file) ALLOWED_EVM_EXTENSIONS = Inr () \<and>
      (\<exists>w1 cs r1 r2 r3 logs report.
         cleanup_old_artifacts base_name ''evm'' w = (Inr (), w1) \<and>
         calls w1 = calls w @ cs \<and> list_all local_call cs \<and>
         upload_to_remote_container_memory api (body contract_file) (filename contract_file) ''evm''
           (remote w) = (Inr (), r1) \<and>
         trigger_docker_test api (filename contract_file) ''evm'' r1 = (Inr logs, r2) \<and>
         fetch_from_remote_container api (base_name @ ''-report.md'') ''evm'' r2 = (Inr report, r3) \<and>
         content resp = JObj
           [(''message'', JStr ''EVM contract processed''),
            (''filename'', JStr (filename contract_file)),
            (''docker_logs'', logs),
            (''aggregated_report'', report),
            (''details'', JObj [(''contract_type'', JStr ''evm''),
                               (''filename'', JStr (filename contract_file)),
                               (''status'', JStr ''processed'')])] \<and>
         headers resp = [] \<and>
         fs w' = fs w1 \<and> remote w' = r3 \<and>
         calls w' = calls w @ cs @
           [ReadFile (filename contract_file),
            UploadToRemote (body contract_file) (filename contract_file) ''evm'',
            TriggerDockerTest (filename contract_file) ''evm'',
            FetchFromRemote (base_name @ ''-report.md'') ''evm'']))
   \<and> (upload_non_evm_contract api contract_file w = (Inr resp, w') \<longleftrightarrow>
      validate_extension (filename contract_file) ALLOWED_NON_EVM_EXTENSIONS = Inr () \<and>
      (\<exists>w1 cs r1 r2 r3 logs report.
         cleanup_old_artifacts base_name ''non-evm'' w = (Inr (), w1) \<and>
         calls w1 = calls w @ cs \<and> list_all local_call cs \<and>
         upload_to_remote_container_memory api (body contract_file) (filename contract_file) ''non-evm''
           (remote w) = (Inr (), r1) \<and>
         trigger_docker_test api (filename contract_file) ''non-evm'' r1 = (Inr logs, r2) \<and>
         fetch_from_remote_container api (base_name @ ''-report.md'') ''non-evm'' r2 = (Inr report, r3) \<and>
         content resp = JObj
           [(''message'', JStr ''Non-EVM contract processed''),
            (''filename'', JStr (filename contract_file)),
            (''docker_logs'', logs),
            (''aggregated_report'', report),
            (''details'', JObj [(''contract_type'', JStr ''non-evm''),
                               (''filename'', JStr (filename contract_file)),
                               (''status'', JStr ''processed'')])] \<and>
         headers resp = [] \<and>
         fs w' = fs w1 \<and> remote w' = r3 \<and>
         calls w' = calls w @ cs @
           [ReadFile (filename contract_file),
            UploadToRemote (body contract_file) (filename contract_file) ''non-evm'',
            TriggerDockerTest (filename contract_file) ''non-evm'',
            FetchFromRemote (base_name @ ''-report.md'') ''non-evm'']))"
  unfolding assms
  using upload_evm_contract_steps [of api contract_file w resp w']
    upload_non_evm_contract_steps [of api contract_file w resp w']
  by (rule conjI)

text \<open>The theorem at the upload \<^verbatim>\<open>MyToken.sol\<close> with a runner that does not fail.\<close>

theorem upload_steps_in_order_witness:
  "\<exists>resp w' cs. upload_evm_contract example_api example_file example_world = (Inr resp, w')
     \<and> json_keys (content resp)
          = [''message'', ''filename'', ''docker_logs'', ''aggregated_report'', ''details'']
     \<and> calls w' = cs @
          [ReadFile ''MyToken.sol'', UploadToRemote ''contract'' ''MyToken.sol'' ''evm'',
           TriggerDockerTest ''MyToken.sol'' ''evm'', FetchFromRemote ''mytoken-report.md'' ''evm'']"
proof -
  obtain resp w' where
    run: "upload_evm_contract example_api example_file example_world = (Inr resp, w')"
    using example_upload_evm by blast
  have b: "''mytoken'' = str_lower (str_strip (path_stem (filename example_file)))"
    by code_simp
  from upload_steps_in_order [OF b, of example_api example_world resp w'] run
  obtain cs logs report where
    "content resp = JObj
           [(''message'', JStr ''EVM contract processed''),
            (''filename'', JStr (filename example_file)),
            (''docker_logs'', logs),
            (''aggregated_report'', report),
            (''details'', JObj [(''contract_type'', JStr ''evm''),
                               (''filename'', JStr (filename example_file)),
                               (''status'', JStr ''processed'')])]"
    "calls w' = calls example_world @ cs @
       [ReadFile (filename example_file),
        UploadToRemote (body example_file) (filename example_file) ''evm'',
        TriggerDockerTest (filename example_file) ''evm'',
        FetchFromRemote (''mytoken'' @ ''-report.md'') ''evm'']"
    by blast
  with run show ?thesis
    by (simp add: json_keys_def example_file_def example_world_def)
qed

subsection \<open>C5: the result handlers\<close>

text \<open>C5. A result handler returns a response exactly when the fetch of the report
  \<^verbatim>\<open><base>-report.md\<close> from the remote runner returns. Every response carries the
  header \<^verbatim>\<open>Cache-Control: no-store, no-cache, must-revalidate, max-age=0\<close>, and its
  JSON body has exactly the keys \<^verbatim>\<open>filename\<close>, the name of the request unchanged, and
  \<^verbatim>\<open>aggregated_report\<close>, what the fetch returned. The handler makes this one call
  and leaves the local file system alone.\<close>

theorem results_carry_no_cache_header:
  assumes "report_filename = str_lower (str_strip (path_stem name)) @ ''-report.md''"
  shows "(get_test_results api name w = (Inr resp, w') \<longleftrightarrow>
      (\<exists>aggregated r'.
         fetch_from_remote_container api report_filename ''evm'' (remote w) = (Inr aggregated, r') \<and>
         content resp = JObj [(''filename'', JStr name), (''aggregated_report'', aggregated)] \<and>
         headers resp = [(''Cache-Control'', ''no-store, no-cache, must-revalidate, max-age=0'')] \<and>
         fs w' = fs w \<and> remote w' = r' \<and>
         calls w' = calls w @ [FetchFromRemote report_filename ''evm'']))
   \<and> (get_non_evm_test_results api name w = (Inr resp, w') \<longleftrightarrow>
      (\<exists>aggregated r'.
         fetch_from_remote_container api report_filename ''non-evm'' (remote w) = (Inr aggregated, r') \<and>
         content resp = JObj [(''filename'', JStr name), (''aggregated_report'', aggregated)] \<and>
         headers resp = [(''Cache-Control'', ''no-store, no-cache, must-revalidate, max-age=0'')] \<and>
         fs w' = fs w \<and> remote w' = r' \<and>
         calls w' = calls w @ [FetchFromRemote report_filename ''non-evm'']))"
  unfolding assms get_test_results_Inr_iff get_non_evm_test_results_Inr_iff
  by (cases resp; cases w; cases w') auto

text \<open>The theorem at the request for \<^verbatim>\<open>MyToken.sol\<close>.\<close>

theorem results_carry_no_cache_header_witness:
  "\<exists>resp w'. get_test_results example_api ''MyToken.sol'' example_world = (Inr resp, w')
     \<and> map_of (headers resp) ''Cache-Control''
          = Some ''no-store, no-cache, must-revalidate, max-age=0''
     \<and> json_keys (content resp) = [''filename'', ''aggregated_report'']
     \<and> json_get (content resp) ''filename'' = Some (JStr ''MyToken.sol'')"
proof -
  obtain resp w' where
    run: "get_test_results example_api ''MyToken.sol'' example_world = (Inr resp, w')"
    using example_get_test_results by blast
  have b: "''mytoken-report.md'' = str_lower (str_strip (path_stem ''MyToken.sol'')) @ ''-report.md''"
    by code_simp
  from results_carry_no_cache_header [OF b, of example_api example_world resp w'] run
  obtain aggregated where
    "content resp = JObj [(''filename'', JStr ''MyToken.sol''), (''aggregated_report'', aggregated)]"
    "headers resp = [(''Cache-Control'', ''no-store, no-cache, must-revalidate, max-age=0'')]"
    by blast
  with run show ?thesis
    by (simp add: json_keys_def json_get_def)
qed

subsection \<open>C7: a rejected upload has no effect\<close>

text \<open>C7. When the extension of the uploaded file's name is not allowed, the handler
  raises the \<^verbatim>\<open>HTTPException\<close> with status 400 and returns the world as it found it:
  the local file system is the same (no directory made, no file removed), the state of
  the remote runner is the same, and the log of calls has no new entry (no call to the
  file system or to the remote runner was made).\<close>

theorem rejected_upload_has_no_effect:
  assumes "ext = str_lower (snd (os_path_splitext (filename contract_file)))"
  shows "(ext \<notin> ALLOWED_EVM_EXTENSIONS \<longrightarrow>
            upload_evm_contract api contract_file w
              = (Inl (HTTPException 400 (''File type '' @ ext @ '' not allowed.'')), w))
       \<and> (ext \<notin> ALLOWED_NON_EVM_EXTENSIONS \<longrightarrow>
            upload_non_evm_contract api contract_file w
              = (Inl (HTTPException 400 (''File type '' @ ext @ '' not allowed.'')), w))"
  unfolding assms
  by (simp add: upload_evm_contract_rejected upload_non_evm_contract_rejected)

text \<open>The theorem at the upload \<^verbatim>\<open>MyToken.sol\<close> to the non-EVM handler.\<close>

theorem rejected_upload_has_no_effect_witness:
  "''.sol'' \<notin> ALLOWED_NON_EVM_EXTENSIONS
   \<and> snd (upload_non_evm_contract example_api example_file example_world) = example_world
   \<and> fs (snd (upload_non_evm_contract example_api example_file example_world)) = fs example_world
   \<and> calls (snd (upload_non_evm_contract example_api example_file example_world)) = []"
proof -
  have e: "''.sol'' = str_lower (snd (os_path_splitext (filename example_file)))"
    by (simp add: example_file_def ext_example)
  have n: "''.sol'' \<notin> ALLOWED_NON_EVM_EXTENSIONS"
    by (simp add: ALLOWED_NON_EVM_EXTENSIONS_def)
  from rejected_upload_has_no_effect [OF e, of example_api example_world] n
  show ?thesis
    by (simp add: example_world_def)
qed

subsection \<open>C9: the details of a response\<close>

text \<open>C9. The \<^verbatim>\<open>details\<close> of every response to an upload are the object with
  \<^verbatim>\<open>contract_type\<close> (the type of the handler), \<^verbatim>\<open>filename\<close> (the name as uploaded)
  and \<^verbatim>\<open>status\<close> \<^verbatim>\<open>processed\<close>. They do not depend on the bytes of the file: two
  uploads of the same name to the same handler, with any bytes, any runner and any
  world, have the same details.\<close>

theorem details_ignore_the_bytes:
  "(upload_evm_contract api contract_file w = (Inr resp, w') \<longrightarrow>
      json_get (content resp) ''details''
        = Some (JObj [(''contract_type'', JStr ''evm''),
                      (''filename'', JStr (filename contract_file)),
                      (''status'', JStr ''processed'')]))
   \<and> (upload_non_evm_contract api contract_file w = (Inr resp, w') \<longrightarrow>
      json_get (content resp) ''details''
        = Some (JObj [(''contract_type'', JStr ''non-evm''),
                      (''filename'', JStr (filename contract_file)),
                      (''status'', JStr ''processed'')]))
   \<and> (upload_evm_contract api contract_file w = (Inr resp, w')
        \<and> upload_evm_contract api2 (contract_file\<lparr>body := other_bytes\<rparr>) w2 = (Inr resp2, w2') \<longrightarrow>
      json_get (content resp2) ''details'' = json_get (content resp) ''details'')
   \<and> (upload_non_evm_contract api contract_file w = (Inr resp, w')
        \<and> upload_non_evm_contract api2 (contract_file\<lparr>body := other_bytes\<rparr>) w2 = (Inr resp2, w2') \<longrightarrow>
      json_get (content resp2) ''details'' = json_get (content resp) ''details'')
   \<and> process_evm_contract file_contents name = process_evm_contract other_bytes name
   \<and> process_non_evm_contract file_contents name = process_non_evm_contract other_bytes name"
  by (auto simp: upload_evm_contract_Inr_iff upload_non_evm_contract_Inr_iff json_get_def
      process_evm_contract_def process_non_evm_contract_def)

text \<open>The theorem at the upload \<^verbatim>\<open>MyToken.sol\<close>.\<close>

theorem details_ignore_the_bytes_witness:
  "\<exists>resp w'. upload_evm_contract example_api example_file example_world = (Inr resp, w')
     \<and> json_get (content resp) ''details''
         = Some (JObj [(''contract_type'', JStr ''evm''), (''filename'', JStr ''MyToken.sol''),
                       (''status'', JStr ''processed'')])"
proof -
  obtain resp w' where
    run: "upload_evm_contract example_api example_file example_world = (Inr resp, w')"
    using example_upload_evm by blast
  from details_ignore_the_bytes
    [where api = example_api and contract_file = example_file and w = example_world
       and resp = resp and w' = w' and ?api2.0 = example_api and other_bytes = "[]"
       and ?w2.0 = example_world and ?resp2.0 = resp and w2' = w'
       and file_contents = "[]" and name = "[]"] run
  have "json_get (content resp) ''details''
         = Some (JObj [(''contract_type'', JStr ''evm''), (''filename'', JStr ''MyToken.sol''),
                       (''status'', JStr ''processed'')])"
    by (simp add: example_file_def)
  with run show ?thesis by blast
qed

subsection \<open>C10: validation ignores the letter case\<close>



subsection \<open>C4: what the cleanup removes, and when it raises\<close>




subsection \<open>C6: the upload of MyToken.sol\<close>

text \<open>C6. The upload-evm handler accepts the name \<^verbatim>\<open>MyToken.sol\<close>. Whenever it
  returns a response, it has expanded the two patterns
  \<^verbatim>\<open>uploaded_contracts/evm/mytoken*\<close> and \<^verbatim>\<open>test_summaries/evm/mytoken*\<close>, called
  \<^verbatim>\<open>os.remove\<close> on exactly the existing paths that match them, and then, after the
  upload and the test trigger, fetched the report \<^verbatim>\<open>mytoken-report.md\<close>. Afterwards
  exactly the matching regular files (that can be removed) are gone, and every other path
  is as before apart from the directories that were made. The matching paths are the
  paths \<^verbatim>\<open>uploaded_contracts/evm/mytoken\<close> or \<^verbatim>\<open>test_summaries/evm/mytoken\<close> followed
  by a string without a slash.\<close>

theorem mytoken_upload:
  assumes "upload_evm_contract api \<lparr>filename = ''MyToken.sol'', body = contents\<rparr> w = (Inr resp, w')"
  shows "validate_extension ''MyToken.sol'' ALLOWED_EVM_EXTENSIONS = Inr ()
     \<and> (\<exists>files1 files2.
          calls w' = calls w @
            [Makedirs ''uploaded_contracts/evm'', Makedirs ''test_summaries/evm'',
             Glob ''uploaded_contracts/evm/mytoken*'']
            @ map Remove files1
            @ [Glob ''test_summaries/evm/mytoken*'']
            @ map Remove files2
            @ [ReadFile ''MyToken.sol'',
               UploadToRemote contents ''MyToken.sol'' ''evm'',
               TriggerDockerTest ''MyToken.sol'' ''evm'',
               FetchFromRemote ''mytoken-report.md'' ''evm'']
          \<and> set files1 \<union> set files2
              = {p. old_artifact ''mytoken'' ''evm'' p \<and> map_of (fs w) p \<noteq> None})
     \<and> (\<forall>p. map_of (fs w') p =
           (if old_artifact ''mytoken'' ''evm'' p \<and> map_of (fs w) p = Some (RegularFile True)
            then None
            else if map_of (fs w) p = None
                    \<and> (p = ''uploaded_contracts'' \<or> p = ''uploaded_contracts/evm''
                       \<or> p = ''test_summaries'' \<or> p = ''test_summaries/evm'')
            then Some Directory
            else map_of (fs w) p))
     \<and> (\<forall>p. old_artifact ''mytoken'' ''evm'' p \<longleftrightarrow>
           (\<exists>s. CHR ''/'' \<notin> set s
              \<and> (p = ''uploaded_contracts/evm/mytoken'' @ s
                 \<or> p = ''test_summaries/evm/mytoken'' @ s)))"
proof -
  let ?f = "\<lparr>filename = ''MyToken.sol'', body = contents\<rparr>"
  from assms [unfolded upload_evm_contract_steps] obtain w1 cs where
    c: "cleanup_old_artifacts (str_lower (str_strip (path_stem (filename ?f)))) ''evm'' w = (Inr (), w1)"
    and cs: "calls w1 = calls w @ cs"
    and f: "fs w' = fs w1"
    and w': "calls w' = calls w @ cs @
           [ReadFile (filename ?f),
            UploadToRemote (body ?f) (filename ?f) ''evm'',
            TriggerDockerTest (filename ?f) ''evm'',
            FetchFromRemote (str_lower (str_strip (path_stem (filename ?f))) @ ''-report.md'') ''evm'']"
    by (elim exE conjE) (rule that, assumption+)
  have c': "cleanup_old_artifacts ''mytoken'' ''evm'' w = (Inr (), w1)"
    using c by (simp add: mytoken_base)
  have h: "CHR ''/'' \<notin> set ''mytoken''" "\<not> has_magic ''mytoken''"
    by simp_all
  note T = cleanup_old_artifacts_effect [OF disjI1 [OF refl] h c']
  note T2 = T [THEN conjunct2, THEN conjunct2, THEN conjunct2, THEN mp, OF refl]
  from T2 [THEN conjunct2] obtain files1 files2 where
    c1: "calls w1 = calls w @
                   [Makedirs (''uploaded_contracts/'' @ ''evm''),
                    Makedirs (''test_summaries/'' @ ''evm''),
                    Glob (''uploaded_contracts/'' @ ''evm'' @ ''/'' @ ''mytoken'' @ ''*'')]
                   @ map Remove files1
                   @ [Glob (''test_summaries/'' @ ''evm'' @ ''/'' @ ''mytoken'' @ ''*'')]
                   @ map Remove files2"
    and s: "set files1 \<union> set files2
                     = {p. old_artifact ''mytoken'' ''evm'' p \<and> map_of (fs w) p \<noteq> None}"
    by (elim exE conjE) (rule that, assumption+)
  have cs': "cs = [Makedirs ''uploaded_contracts/evm'', Makedirs ''test_summaries/evm'',
             Glob ''uploaded_contracts/evm/mytoken*'']
            @ map Remove files1
            @ [Glob ''test_summaries/evm/mytoken*'']
            @ map Remove files2"
    using c1 cs by simp
  have A: "\<exists>files1 files2.
          calls w' = calls w @
            [Makedirs ''uploaded_contracts/evm'', Makedirs ''test_summaries/evm'',
             Glob ''uploaded_contracts/evm/mytoken*'']
            @ map Remove files1
            @ [Glob ''test_summaries/evm/mytoken*'']
            @ map Remove files2
            @ [ReadFile ''MyToken.sol'',
               UploadToRemote contents ''MyToken.sol'' ''evm'',
               TriggerDockerTest ''MyToken.sol'' ''evm'',
               FetchFromRemote ''mytoken-report.md'' ''evm'']
          \<and> set files1 \<union> set files2
              = {p. old_artifact ''mytoken'' ''evm'' p \<and> map_of (fs w) p \<noteq> None}"
    apply (rule exI [of _ files1], rule exI [of _ files2])
    using w' s unfolding cs' by (simp add: mytoken_base)
  have B: "\<forall>p. map_of (fs w') p =
           (if old_artifact ''mytoken'' ''evm'' p \<and> map_of (fs w) p = Some (RegularFile True)
            then None
            else if map_of (fs w) p = None
                    \<and> (p = ''uploaded_contracts'' \<or> p = ''uploaded_contracts/evm''
                       \<or> p = ''test_summaries'' \<or> p = ''test_summaries/evm'')
            then Some Directory
            else map_of (fs w) p)"
    using T2 [THEN conjunct1] unfolding f by simp
  have D: "\<forall>p. old_artifact ''mytoken'' ''evm'' p \<longleftrightarrow>
           (\<exists>s. CHR ''/'' \<notin> set s
              \<and> (p = ''uploaded_contracts/evm/mytoken'' @ s
                 \<or> p = ''test_summaries/evm/mytoken'' @ s))"
    by (rule allI) (rule mytoken_artifact)
  show ?thesis
    by (rule conjI [OF mytoken_valid conjI [OF A conjI [OF B D]]])
qed

text \<open>The theorem on the example world.\<close>

theorem mytoken_upload_witness:
  "\<exists>resp w' files1 files2.
     upload_evm_contract example_api example_file example_world = (Inr resp, w')
     \<and> calls w' =
            [Makedirs ''uploaded_contracts/evm'', Makedirs ''test_summaries/evm'',
             Glob ''uploaded_contracts/evm/mytoken*'']
            @ map Remove files1
            @ [Glob ''test_summaries/evm/mytoken*'']
            @ map Remove files2
            @ [ReadFile ''MyToken.sol'',
               UploadToRemote ''contract'' ''MyToken.sol'' ''evm'',
               TriggerDockerTest ''MyToken.sol'' ''evm'',
               FetchFromRemote ''mytoken-report.md'' ''evm'']
     \<and> map_of (fs w') ''uploaded_contracts/evm/mytoken.sol'' = None
     \<and> map_of (fs w') ''uploaded_contracts/evm/other.sol'' = Some (RegularFile True)"
proof -
  obtain resp w' where
    run: "upload_evm_contract example_api \<lparr>filename = ''MyToken.sol'', body = ''contract''\<rparr>
            example_world = (Inr resp, w')"
    using example_upload_evm unfolding example_file_def by blast
  note T = mytoken_upload [OF run]
  from T [THEN conjunct2, THEN conjunct1] obtain files1 files2 where
    c: "calls w' = calls example_world @
            [Makedirs ''uploaded_contracts/evm'', Makedirs ''test_summaries/evm'',
             Glob ''uploaded_contracts/evm/mytoken*'']
            @ map Remove files1
            @ [Glob ''test_summaries/evm/mytoken*'']
            @ map Remove files2
            @ [ReadFile ''MyToken.sol'',
               UploadToRemote ''contract'' ''MyToken.sol'' ''evm'',
               TriggerDockerTest ''MyToken.sol'' ''evm'',
               FetchFromRemote ''mytoken-report.md'' ''evm'']"
    by (elim exE conjE) (rule that, assumption+)
  note F = T [THEN conjunct2, THEN conjunct2, THEN conjunct1, THEN spec]
  have o: "old_artifact ''mytoken'' ''evm'' ''uploaded_contracts/evm/mytoken.sol''"
          "\<not> old_artifact ''mytoken'' ''evm'' ''uploaded_contracts/evm/other.sol''"
    by code_simp+
  have m: "map_of (fs example_world) ''uploaded_contracts/evm/mytoken.sol'' = Some (RegularFile True)"
          "map_of (fs example_world) ''uploaded_contracts/evm/other.sol'' = Some (RegularFile True)"
    by code_simp+
  have 1: "map_of (fs w') ''uploaded_contracts/evm/mytoken.sol'' = None"
    using F [of "''uploaded_contracts/evm/mytoken.sol''"] o m by simp
  have 2: "map_of (fs w') ''uploaded_contracts/evm/other.sol'' = Some (RegularFile True)"
    using F [of "''uploaded_contracts/evm/other.sol''"] o m by simp
  have 3: "calls example_world = []"
    by (simp add: example_world_def)
  show ?thesis
    apply (rule exI [of _ resp], rule exI [of _ w'], rule exI [of _ files1], rule exI [of _ files2])
    using run c 1 2 unfolding 3 example_file_def by simp
qed

subsection \<open>C8: a base name with a wildcard\<close>

text \<open>C8. The claim says that the cleanup removes no file whose name does not start
  with the base name. The base name goes into the pattern of \<^verbatim>\<open>glob.glob\<close> as it
  is, so a wildcard in it is a wildcard of the pattern: the upload of \<^verbatim>\<open>*.sol\<close> is
  accepted, its base name is \<^verbatim>\<open>*\<close>, and the cleanup removes \<^verbatim>\<open>other.sol\<close>, whose
  name does not start with \<^verbatim>\<open>*\<close>.\<close>

theorem wildcard_name_removes_other_contracts:
  "validate_extension ''*.sol'' ALLOWED_EVM_EXTENSIONS = Inr ()
   \<and> str_lower (str_strip (path_stem ''*.sol'')) = ''*''
   \<and> map_of (fs example_world) ''uploaded_contracts/evm/other.sol'' = Some (RegularFile True)
   \<and> \<not> prefix ''*'' ''other.sol''
   \<and> map_of (fs (snd (upload_evm_contract example_api \<lparr>filename = ''*.sol'', body = []\<rparr>
                        example_world))) ''uploaded_contracts/evm/other.sol'' = None
   \<and> map_of (fs (snd (cleanup_old_artifacts ''*'' ''evm'' example_world)))
        ''uploaded_contracts/evm/other.sol'' = None"
  by code_simp


end
